theory Spec2Isabelle
  imports Complex_Main "HOL-Library.Log_Nat"
begin

section \<open>Python values and exceptions\<close>

text \<open>
  The embedding follows \<^verbatim>\<open>pygnsslab/io/rinexnav/reader.py\<close> and
  \<^verbatim>\<open>pygnsslab/io/rinexnav/utils.py\<close>.

  Strings are byte strings restricted to ASCII. A Python \<^verbatim>\<open>float\<close> is a real
  number, an infinity or NaN. The arithmetic of the parsers and of the orbit and clock
  models is exact (no IEEE rounding, overflow or underflow); the rounding of doubles is
  written out in the conversions between dates and GPS time, in the microsecond of an
  epoch and in the loop that solves Kepler's equation.
  A raised exception is the left summand of a sum type; the string is the fixed part of
  the message, which tells the raise sites apart.
\<close>

datatype py_error =
    ValueError string
  | OverflowError string
  | IndexError string
  | KeyError string
  | LinAlgError string

datatype pyfloat = Fin real | Inf bool | NaN

definition isnan :: "pyfloat \<Rightarrow> bool" where
  "isnan x = (x = NaN)"

text \<open>Sequencing: the first raised exception ends the computation.\<close>

fun ebind :: "'e + 'a \<Rightarrow> ('a \<Rightarrow> 'e + 'b) \<Rightarrow> 'e + 'b" where
  "ebind (Inl e) f = Inl e"
| "ebind (Inr x) f = f x"

section \<open>String primitives\<close>

text \<open>\<^verbatim>\<open>str.isspace\<close> and \<^verbatim>\<open>str.strip\<close> on ASCII: TAB, LF, VT, FF, CR, FS, GS, RS, US, SPACE.\<close>

definition is_space :: "char \<Rightarrow> bool" where
  "is_space c = (let n = (of_char c :: int) in (9 \<le> n \<and> n \<le> 13) \<or> (28 \<le> n \<and> n \<le> 32))"

text \<open>The whitespace that \<^verbatim>\<open>float()\<close> and \<^verbatim>\<open>int()\<close> skip around an ASCII literal.\<close>

definition is_cspace :: "char \<Rightarrow> bool" where
  "is_cspace c = (let n = (of_char c :: int) in (9 \<le> n \<and> n \<le> 13) \<or> n = 32)"

definition is_digit :: "char \<Rightarrow> bool" where
  "is_digit c = (let n = (of_char c :: int) in 48 \<le> n \<and> n \<le> 57)"

definition digit_val :: "char \<Rightarrow> int" where
  "digit_val c = of_char c - 48"

definition to_lower :: "char \<Rightarrow> char" where
  "to_lower c = (let n = (of_char c :: int) in if 65 \<le> n \<and> n \<le> 90 then char_of (n + 32) else c)"

definition isspace :: "string \<Rightarrow> bool" where
  "isspace s = (s \<noteq> [] \<and> list_all is_space s)"

definition lstrip :: "string \<Rightarrow> string" where
  "lstrip s = dropWhile is_space s"

definition rstrip :: "string \<Rightarrow> string" where
  "rstrip s = rev (dropWhile is_space (rev s))"

definition strip :: "string \<Rightarrow> string" where
  "strip s = lstrip (rstrip s)"

definition cstrip :: "string \<Rightarrow> string" where
  "cstrip s = dropWhile is_cspace (rev (dropWhile is_cspace (rev s)))"

text \<open>\<^verbatim>\<open>s[a:b]\<close> for \<open>0 \<le> a \<le> b\<close>; Python clips the slice to the string.\<close>

definition slice :: "nat \<Rightarrow> nat \<Rightarrow> string \<Rightarrow> string" where
  "slice a b s = take (b - a) (drop a s)"

definition startswith :: "string \<Rightarrow> string \<Rightarrow> bool" where
  "startswith p s = (take (length p) s = p)"

text \<open>\<^verbatim>\<open>p in s\<close> for strings.\<close>

fun contains :: "string \<Rightarrow> string \<Rightarrow> bool" where
  "contains p [] = (p = [])"
| "contains p (c # cs) = (startswith p (c # cs) \<or> contains p cs)"

text \<open>\<^verbatim>\<open>s.replace('D', 'E')\<close>, \<^verbatim>\<open>s.replace('D ', 'D')\<close>, \<^verbatim>\<open>s.replace(' ', '')\<close>.\<close>

definition replace_D_E :: "string \<Rightarrow> string" where
  "replace_D_E s = map (\<lambda>c. if c = CHR ''D'' then CHR ''E'' else c) s"

fun replace_Dsp_D :: "string \<Rightarrow> string" where
  "replace_Dsp_D (a # b # cs) =
     (if a = CHR ''D'' \<and> b = CHR '' '' then CHR ''D'' # replace_Dsp_D cs
      else a # replace_Dsp_D (b # cs))"
| "replace_Dsp_D cs = cs"

definition remove_spaces :: "string \<Rightarrow> string" where
  "remove_spaces s = filter (\<lambda>c. c \<noteq> CHR '' '') s"

text \<open>\<^verbatim>\<open>s.split(sep)\<close> for a one-character separator.\<close>

fun split_on :: "char \<Rightarrow> string \<Rightarrow> string list" where
  "split_on sep [] = [[]]"
| "split_on sep (c # cs) =
     (if c = sep then [] # split_on sep cs
      else (case split_on sep cs of p # ps \<Rightarrow> (c # p) # ps | [] \<Rightarrow> [[c]]))"

section \<open>Numeric literals: \<^verbatim>\<open>int()\<close> and \<^verbatim>\<open>float()\<close>\<close>

text \<open>
  A digit part is \<^verbatim>\<open>digit (["_"] digit)*\<close>. \<open>digits_tail\<close> reads what follows its first
  digit and returns the digits (underscores dropped) and the rest of the string.
\<close>

fun digits_tail :: "string \<Rightarrow> string \<times> string" where
  "digits_tail (c # d # cs) =
     (if is_digit c then (let (ds, r) = digits_tail (d # cs) in (c # ds, r))
      else if c = CHR ''_'' \<and> is_digit d then (let (ds, r) = digits_tail cs in (d # ds, r))
      else ([], c # d # cs))"
| "digits_tail [c] = (if is_digit c then ([c], []) else ([], [c]))"
| "digits_tail [] = ([], [])"

definition digitpart :: "string \<Rightarrow> (string \<times> string) option" where
  "digitpart s =
     (case s of
        [] \<Rightarrow> None
      | c # cs \<Rightarrow> if is_digit c then (let (ds, r) = digits_tail cs in Some (c # ds, r)) else None)"

definition int_of_digits :: "string \<Rightarrow> int" where
  "int_of_digits ds = foldl (\<lambda>a c. 10 * a + digit_val c) 0 ds"

text \<open>An optional sign: the factor and the rest.\<close>

definition take_sign :: "string \<Rightarrow> bool \<times> string" where
  "take_sign s =
     (case s of
        c # cs \<Rightarrow> if c = CHR ''-'' then (True, cs) else if c = CHR ''+'' then (False, cs) else (False, s)
      | [] \<Rightarrow> (False, s))"

text \<open>\<^verbatim>\<open>int(s)\<close> in base 10; \<open>None\<close> is the \<^verbatim>\<open>ValueError\<close>.\<close>

definition py_int :: "string \<Rightarrow> int option" where
  "py_int s =
     (let (neg, r) = take_sign (cstrip s) in
      case digitpart r of
        Some (ds, []) \<Rightarrow> Some (if neg then - int_of_digits ds else int_of_digits ds)
      | _ \<Rightarrow> None)"

text \<open>
  \<^verbatim>\<open>float(s)\<close>: \<^verbatim>\<open>[sign] (digitpart ["." [digitpart]] | "." digitpart) [("e"|"E") [sign] digitpart]\<close>,
  or \<^verbatim>\<open>inf\<close>, \<^verbatim>\<open>infinity\<close>, \<^verbatim>\<open>nan\<close> in any case. \<open>None\<close> is the \<^verbatim>\<open>ValueError\<close>.
\<close>

definition mantissa :: "string \<Rightarrow> (string \<times> string \<times> string) option" where
  "mantissa s =
     (case digitpart s of
        Some (ip, r1) \<Rightarrow>
          (case r1 of
             c # r2 \<Rightarrow>
               if c = CHR ''.'' then
                 (case digitpart r2 of Some (fp, r3) \<Rightarrow> Some (ip, fp, r3) | None \<Rightarrow> Some (ip, [], r2))
               else Some (ip, [], r1)
           | [] \<Rightarrow> Some (ip, [], r1))
      | None \<Rightarrow>
          (case s of
             c # r2 \<Rightarrow>
               if c = CHR ''.'' then
                 (case digitpart r2 of Some (fp, r3) \<Rightarrow> Some ([], fp, r3) | None \<Rightarrow> None)
               else None
           | [] \<Rightarrow> None))"

definition exponent :: "string \<Rightarrow> int option" where
  "exponent r =
     (case r of
        [] \<Rightarrow> Some 0
      | c # r' \<Rightarrow>
          if c = CHR ''e'' \<or> c = CHR ''E'' then
            (let (neg, r'') = take_sign r' in
             case digitpart r'' of
               Some (ds, []) \<Rightarrow> Some (if neg then - int_of_digits ds else int_of_digits ds)
             | _ \<Rightarrow> None)
          else None)"

definition scale10 :: "real \<Rightarrow> int \<Rightarrow> real" where
  "scale10 m ex = (if 0 \<le> ex then m * 10 ^ nat ex else m / 10 ^ nat (- ex))"

definition py_float :: "string \<Rightarrow> pyfloat option" where
  "py_float s =
     (let (neg, r) = take_sign (cstrip s); lr = map to_lower r in
      if lr = ''inf'' \<or> lr = ''infinity'' then Some (Inf neg)
      else if lr = ''nan'' then Some NaN
      else
        (case mantissa r of
           None \<Rightarrow> None
         | Some (ip, fp, r') \<Rightarrow>
             (case exponent r' of
                None \<Rightarrow> None
              | Some ex \<Rightarrow>
                  (let m = real_of_int (int_of_digits (ip @ fp)) / 10 ^ length fp
                   in Some (Fin (scale10 (if neg then - m else m) ex))))))"

section \<open>The fixed-field numeric parser\<close>

text \<open>\<^verbatim>\<open>re.match(r'^([+-]?\d+)', s)\<close>: the matched group.\<close>

definition match_signed_int :: "string \<Rightarrow> string option" where
  "match_signed_int s =
     (case s of
        [] \<Rightarrow> None
      | c # cs \<Rightarrow>
          if c = CHR ''+'' \<or> c = CHR ''-'' then
            (if takeWhile is_digit cs = [] then None else Some (c # takeWhile is_digit cs))
          else if takeWhile is_digit s = [] then None
          else Some (takeWhile is_digit s))"

text \<open>
  \<^verbatim>\<open>mantissa * (10 ** exponent)\<close> with an \<^verbatim>\<open>int\<close> exponent. For \<open>exponent \<ge> 0\<close> the power is
  an \<^verbatim>\<open>int\<close> that the product converts to \<^verbatim>\<open>float\<close>: from \<open>10 ** 309\<close> on it exceeds the
  largest double and the conversion raises. For \<open>exponent < 0\<close> the power is a \<^verbatim>\<open>float\<close>.
\<close>

definition mul_pow10 :: "pyfloat \<Rightarrow> int \<Rightarrow> py_error + pyfloat" where
  "mul_pow10 m ex =
     (if 309 \<le> ex then Inl (OverflowError ''int too large to convert to float'')
      else case m of Fin x \<Rightarrow> Inr (Fin (scale10 x ex)) | _ \<Rightarrow> Inr m)"

text \<open>
  The first match of
  \<^verbatim>\<open>[-+]?(?:\d+(?:\.\d*)?|\.\d+)(?:[eEdD][-+]?\d+)?\<close>: \<open>number_at\<close> matches at the
  start of the string, \<open>first_number\<close> searches from left to right.
\<close>

definition number_exp :: "string \<Rightarrow> string" where
  "number_exp r =
     (case r of
        [] \<Rightarrow> []
      | c # cs \<Rightarrow>
          if c \<in> set ''eEdD'' then
            (case match_signed_int cs of Some g \<Rightarrow> c # g | None \<Rightarrow> [])
          else [])"

definition number_unsigned :: "string \<Rightarrow> string option" where
  "number_unsigned s =
     (let ip = takeWhile is_digit s; r = dropWhile is_digit s in
      if ip \<noteq> [] then
        (case r of
           c # r' \<Rightarrow>
             if c = CHR ''.'' then
               Some (ip @ [c] @ takeWhile is_digit r' @ number_exp (dropWhile is_digit r'))
             else Some (ip @ number_exp r)
         | [] \<Rightarrow> Some ip)
      else
        (case s of
           c # r' \<Rightarrow>
             if c = CHR ''.'' \<and> takeWhile is_digit r' \<noteq> [] then
               Some ([c] @ takeWhile is_digit r' @ number_exp (dropWhile is_digit r'))
             else None
         | [] \<Rightarrow> None))"

definition number_at :: "string \<Rightarrow> string option" where
  "number_at s =
     (case s of
        [] \<Rightarrow> None
      | c # cs \<Rightarrow>
          if c = CHR ''-'' \<or> c = CHR ''+'' then
            (case number_unsigned cs of Some m \<Rightarrow> Some (c # m) | None \<Rightarrow> None)
          else number_unsigned s)"

fun first_number :: "string \<Rightarrow> string option" where
  "first_number [] = None"
| "first_number (c # cs) =
     (case number_at (c # cs) of Some m \<Rightarrow> Some m | None \<Rightarrow> first_number cs)"

text \<open>
  \<^verbatim>\<open>Rinex2NavReader._parse_rinex_float\<close>. \<open>d_notation\<close> is the block under
  \<^verbatim>\<open>if 'D' in value_str\<close>: \<open>Some\<close> when it returns or raises, \<open>None\<close> when it falls through.
\<close>

definition split_exponent :: "string \<Rightarrow> (py_error + pyfloat) option" where
  "split_exponent value_str =
     (let parts = split_on (CHR ''D'') value_str in
      if 2 \<le> length parts then
        (case py_float (parts ! 0) of
           None \<Rightarrow> None
         | Some m \<Rightarrow>
             (case match_signed_int (strip (parts ! 1)) of
                None \<Rightarrow> None
              | Some g \<Rightarrow>
                  (case py_int g of
                     None \<Rightarrow> None
                   | Some ex \<Rightarrow> Some (mul_pow10 m ex))))
      else None)"

definition d_notation :: "string \<Rightarrow> (py_error + pyfloat) option" where
  "d_notation value_str =
     (case (if contains ''D+'' value_str \<or> contains ''D-'' value_str
            then py_float (replace_D_E value_str) else None) of
        Some v \<Rightarrow> Some (Inr v)
      | None \<Rightarrow>
          (case (if contains ''D '' value_str
                 then py_float (replace_D_E (replace_Dsp_D value_str)) else None) of
             Some v \<Rightarrow> Some (Inr v)
           | None \<Rightarrow> split_exponent value_str))"

definition last_resort :: "string \<Rightarrow> pyfloat" where
  "last_resort value_str =
     (case py_float (remove_spaces (replace_D_E value_str)) of
        Some v \<Rightarrow> v
      | None \<Rightarrow>
          (case first_number value_str of
             None \<Rightarrow> NaN
           | Some m \<Rightarrow> (case py_float (replace_D_E m) of Some v \<Rightarrow> v | None \<Rightarrow> NaN)))"

definition parse_rinex_float :: "string \<Rightarrow> py_error + pyfloat" where
  "parse_rinex_float s =
     (if s = [] \<or> isspace s then Inr (Fin 0)
      else
        (let value_str = strip s in
         case py_float value_str of
           Some v \<Rightarrow> Inr v
         | None \<Rightarrow>
             (case (if CHR ''D'' \<in> set value_str then d_notation value_str else None) of
                Some r \<Rightarrow> r
              | None \<Rightarrow> Inr (last_resort value_str))))"

section \<open>Calendar time\<close>

text \<open>
  A \<^verbatim>\<open>datetime\<close> is its number of microseconds since 0001-01-01 00:00:00, the first
  instant the type can hold; the last one is 9999-12-31 23:59:59.999999.
\<close>

type_synonym datetime = int

definition is_leap :: "int \<Rightarrow> bool" where
  "is_leap y = (y mod 4 = 0 \<and> (y mod 100 \<noteq> 0 \<or> y mod 400 = 0))"

definition days_in_month :: "int \<Rightarrow> int \<Rightarrow> int" where
  "days_in_month y m =
     (if m = 2 then (if is_leap y then 29 else 28)
      else if m = 4 \<or> m = 6 \<or> m = 9 \<or> m = 11 then 30 else 31)"

definition days_before_year :: "int \<Rightarrow> int" where
  "days_before_year y = (y - 1) * 365 + (y - 1) div 4 - (y - 1) div 100 + (y - 1) div 400"

definition days_before_month :: "int \<Rightarrow> int \<Rightarrow> int" where
  "days_before_month y m = sum_list (map (days_in_month y) [1..m - 1])"

definition ymd2ord :: "int \<Rightarrow> int \<Rightarrow> int \<Rightarrow> int" where
  "ymd2ord y m d = days_before_year y + days_before_month y m + d"

definition max_datetime :: datetime where
  "max_datetime = ymd2ord 9999 12 31 * 86400000000 - 1"

text \<open>The constructor \<^verbatim>\<open>datetime(year, month, day, hour, minute, second, microsecond)\<close>.\<close>

definition py_datetime :: "int \<Rightarrow> int \<Rightarrow> int \<Rightarrow> int \<Rightarrow> int \<Rightarrow> int \<Rightarrow> int \<Rightarrow> py_error + datetime" where
  "py_datetime y m d h mi s us =
     (if \<not> (1 \<le> y \<and> y \<le> 9999) then Inl (ValueError ''year is out of range'')
      else if \<not> (1 \<le> m \<and> m \<le> 12) then Inl (ValueError ''month must be in 1..12'')
      else if \<not> (1 \<le> d \<and> d \<le> days_in_month y m) then Inl (ValueError ''day is out of range for month'')
      else if \<not> (0 \<le> h \<and> h \<le> 23) then Inl (ValueError ''hour must be in 0..23'')
      else if \<not> (0 \<le> mi \<and> mi \<le> 59) then Inl (ValueError ''minute must be in 0..59'')
      else if \<not> (0 \<le> s \<and> s \<le> 59) then Inl (ValueError ''second must be in 0..59'')
      else if \<not> (0 \<le> us \<and> us \<le> 999999) then Inl (ValueError ''microsecond must be in 0..999999'')
      else Inr (((((ymd2ord y m d - 1) * 24 + h) * 60 + mi) * 60 + s) * 1000000 + us))"

text \<open>\<^verbatim>\<open>int(x)\<close> for a float truncates towards zero.\<close>

definition trunc :: "real \<Rightarrow> int" where
  "trunc x = (if 0 \<le> x then \<lfloor>x\<rfloor> else \<lceil>x\<rceil>)"

definition int_of_float :: "pyfloat \<Rightarrow> py_error + int" where
  "int_of_float v =
     (case v of
        Fin x \<Rightarrow> Inr (trunc x)
      | Inf _ \<Rightarrow> Inl (OverflowError ''cannot convert float infinity to integer'')
      | NaN \<Rightarrow> Inl (ValueError ''cannot convert float NaN to integer''))"

section \<open>Double precision\<close>

text \<open>
  The conversions between dates and GPS time, the microsecond of an epoch and the solution
  of Kepler's equation depend on the rounding of doubles, which is written out there:
  \<open>rd x\<close> is the double nearest to \<open>x\<close>, ties going to the even
  significand of 53 bits, with the spacing of the subnormal numbers below \<open>2 powr (- 1022)\<close>.
  Overflow to infinity is not modelled.
\<close>

definition round_half_even :: "real \<Rightarrow> int" where
  "round_half_even x =
     (let f = \<lfloor>x\<rfloor>; d = x - real_of_int f in
      if d < 1 / 2 then f else if 1 / 2 < d then f + 1 else if even f then f else f + 1)"

definition rd :: "real \<Rightarrow> real" where
  "rd x =
     (if x = 0 then 0
      else
        (let u = 2 powr real_of_int (max \<lfloor>log 2 \<bar>x\<bar>\<rfloor> (- 1022) - 52)
         in sgn x * (real_of_int (round_half_even (\<bar>x\<bar> / u)) * u)))"

text \<open>The C function \<^verbatim>\<open>round\<close>: halves go away from zero.\<close>

definition round_half_away :: "real \<Rightarrow> int" where
  "round_half_away x = (if 0 \<le> x then \<lfloor>x + 1 / 2\<rfloor> else \<lceil>x - 1 / 2\<rceil>)"

text \<open>
  \<^verbatim>\<open>x % w\<close> on floats for \<open>w > 0\<close>: \<^verbatim>\<open>fmod\<close> is exact and has the sign of \<open>x\<close>; a negative
  remainder is moved up by \<open>w\<close>, in floating point.
\<close>

definition float_mod :: "real \<Rightarrow> real \<Rightarrow> real" where
  "float_mod x w =
     (let m = x - w * real_of_int (trunc (x / w)) in if m < 0 then rd (m + w) else m)"

section \<open>The version 2 record parser\<close>

text \<open>
  A parsed record: the keys \<^verbatim>\<open>PRN\<close>, \<^verbatim>\<open>Epoch\<close> (also stored as \<^verbatim>\<open>Toc\<close>), the three clock
  terms, and the orbital parameters in the order they were stored.
\<close>

record nav_record =
  PRN :: int
  Epoch :: datetime
  SV_clock_bias :: pyfloat
  SV_clock_drift :: pyfloat
  SV_clock_drift_rate :: pyfloat
  orbital :: "(string \<times> pyfloat) list"

definition Toc :: "nav_record \<Rightarrow> datetime" where
  "Toc r = Epoch r"

definition param_names :: "string list" where
  "param_names =
     [''IODE'', ''Crs'', ''Delta_n'', ''M0'',
      ''Cuc'', ''e'', ''Cus'', ''sqrt_A'',
      ''Toe'', ''Cic'', ''OMEGA'', ''Cis'',
      ''i0'', ''Crc'', ''omega'', ''OMEGA_DOT'',
      ''IDOT'', ''L2_codes'', ''GPS_week'', ''L2_P_flag'',
      ''SV_accuracy'', ''SV_health'', ''TGD'', ''IODC'',
      ''Transmission_time'', ''Fit_interval'']"

definition column_starts :: "nat list" where
  "column_starts = [3, 22, 41, 60]"

definition column_ends :: "nat list" where
  "column_ends = [22, 41, 60, 79]"

text \<open>
  One field of a continuation line. The inner \<^verbatim>\<open>except ValueError\<close> turns a
  \<^verbatim>\<open>ValueError\<close> of the numeric parser into NaN; another exception leaves the loop.
\<close>

definition v2_field :: "string \<Rightarrow> nat \<Rightarrow> py_error + pyfloat" where
  "v2_field line k =
     (if column_starts ! k < length line then
        (let end_pos = min (column_ends ! k) (length line);
             field = strip (slice (column_starts ! k) end_pos line)
         in if field \<noteq> [] then
              (case parse_rinex_float field of
                 Inr v \<Rightarrow> Inr v
               | Inl (ValueError _) \<Rightarrow> Inr NaN
               | Inl e \<Rightarrow> Inl e)
            else Inr NaN)
      else Inr NaN)"

text \<open>The loop \<^verbatim>\<open>for k in range(4)\<close> over one line, with the running \<^verbatim>\<open>param_index\<close>.\<close>

fun v2_fields ::
  "string \<Rightarrow> nat list \<Rightarrow> nat \<Rightarrow> (string \<times> pyfloat) list \<Rightarrow> py_error + nat \<times> (string \<times> pyfloat) list"
where
  "v2_fields line [] param_index acc = Inr (param_index, acc)"
| "v2_fields line (k # ks) param_index acc =
     (if length param_names \<le> param_index then Inr (param_index, acc)
      else
        (case v2_field line k of
           Inl e \<Rightarrow> Inl e
         | Inr v \<Rightarrow> v2_fields line ks (param_index + 1) (acc @ [(param_names ! param_index, v)])))"

text \<open>
  The loop \<^verbatim>\<open>for j in range(1, 8)\<close> over the continuation lines that exist; an empty line
  is skipped without advancing \<^verbatim>\<open>param_index\<close>.
\<close>

fun v2_continuation ::
  "string list \<Rightarrow> nat \<Rightarrow> (string \<times> pyfloat) list \<Rightarrow> py_error + (string \<times> pyfloat) list"
where
  "v2_continuation [] param_index acc = Inr acc"
| "v2_continuation (raw # rest) param_index acc =
     (let line = rstrip raw in
      if line = [] then v2_continuation rest param_index acc
      else
        (case v2_fields line [0, 1, 2, 3] param_index acc of
           Inl e \<Rightarrow> Inl e
         | Inr (param_index', acc') \<Rightarrow> v2_continuation rest param_index' acc'))"

definition int_field :: "nat \<Rightarrow> nat \<Rightarrow> string \<Rightarrow> py_error + int" where
  "int_field a b line =
     (case py_int (strip (slice a b line)) of
        None \<Rightarrow> Inl (ValueError ''invalid literal for int() with base 10'')
      | Some n \<Rightarrow> Inr n)"

definition float_field :: "nat \<Rightarrow> nat \<Rightarrow> string \<Rightarrow> py_error + pyfloat" where
  "float_field a b line =
     (case py_float (strip (slice a b line)) of
        None \<Rightarrow> Inl (ValueError ''could not convert string to float'')
      | Some v \<Rightarrow> Inr v)"

text \<open>
  \<^verbatim>\<open>datetime(year, month, day, hour, minute, int(second), int((second - int(second)) * 1e6))\<close>,
  where \<^verbatim>\<open>second\<close> is the double that \<^verbatim>\<open>float()\<close> returned: the difference and the product are
  rounded.
\<close>

definition make_epoch :: "int \<Rightarrow> int \<Rightarrow> int \<Rightarrow> int \<Rightarrow> int \<Rightarrow> pyfloat \<Rightarrow> py_error + datetime" where
  "make_epoch year month day hour minute second =
     (case second of
        Fin x \<Rightarrow>
          (let s = rd x; isec = trunc s in
           py_datetime year month day hour minute isec
             (trunc (rd (rd (s - real_of_int isec) * 1000000))))
      | _ \<Rightarrow> ebind (int_of_float second) (\<lambda>_. Inl (ValueError ''cannot convert float NaN to integer'')))"

text \<open>
  The body of the \<^verbatim>\<open>try\<close> block of \<^verbatim>\<open>Rinex2NavReader._parse_data\<close>: the first line of a
  record (already right-stripped) and the continuation lines \<^verbatim>\<open>lines[i+1 : i+8]\<close>.
\<close>

definition v2_record :: "string \<Rightarrow> string list \<Rightarrow> py_error + nav_record" where
  "v2_record line cont =
     ebind (int_field 0 2 line) (\<lambda>prn.
     ebind (int_field 3 5 line) (\<lambda>yy.
     let year = (if 80 \<le> yy then yy + 1900 else yy + 2000) in
     ebind (int_field 6 8 line) (\<lambda>month.
     ebind (int_field 9 11 line) (\<lambda>day.
     ebind (int_field 12 14 line) (\<lambda>hour.
     ebind (int_field 15 17 line) (\<lambda>minute.
     ebind (float_field 17 22 line) (\<lambda>second.
     ebind (parse_rinex_float (slice 22 41 line)) (\<lambda>sv_clock_bias.
     ebind (parse_rinex_float (slice 41 60 line)) (\<lambda>sv_clock_drift.
     ebind (parse_rinex_float (slice 60 79 line)) (\<lambda>sv_clock_drift_rate.
     ebind (make_epoch year month day hour minute second) (\<lambda>epoch.
     ebind (v2_continuation cont 0 []) (\<lambda>orbital_params.
       Inr \<lparr>PRN = prn, Epoch = epoch, SV_clock_bias = sv_clock_bias,
            SV_clock_drift = sv_clock_drift, SV_clock_drift_rate = sv_clock_drift_rate,
            orbital = orbital_params\<rparr>))))))))))))"

text \<open>
  The \<^verbatim>\<open>while i < len(lines)\<close> loop, on the lines from index \<open>i\<close> on: an empty line
  advances by one, anything else by eight; \<^verbatim>\<open>except Exception\<close> drops the record whose
  \<^verbatim>\<open>try\<close> block raised.
\<close>

function v2_records :: "string list \<Rightarrow> nav_record list" where
  "v2_records [] = []"
| "v2_records (raw # rest) =
     (if rstrip raw = [] then v2_records rest
      else
        (case v2_record (rstrip raw) (take 7 rest) of
           Inl e \<Rightarrow> []
         | Inr r \<Rightarrow> [r]) @ v2_records (drop 7 rest))"
  by pat_completeness auto
termination
  by (relation "measure length") auto

text \<open>
  \<^verbatim>\<open>Rinex2NavReader._parse_data\<close>: the value stored under \<^verbatim>\<open>self.data['G']\<close>, one row per
  record in the order of the list \<^verbatim>\<open>records\<close>.
\<close>

definition v2_parse_data :: "string \<Rightarrow> nav_record list" where
  "v2_parse_data data_content = v2_records (split_on (CHR 0x0A) (strip data_content))"

section \<open>Version dispatch\<close>

text \<open>Comparisons of floats: every comparison with NaN is false.\<close>

fun f_le :: "pyfloat \<Rightarrow> pyfloat \<Rightarrow> bool" where
  "f_le NaN _ = False"
| "f_le _ NaN = False"
| "f_le (Fin x) (Fin y) = (x \<le> y)"
| "f_le (Fin x) (Inf neg) = (\<not> neg)"
| "f_le (Inf neg) (Fin y) = neg"
| "f_le (Inf neg) (Inf neg') = (neg \<or> \<not> neg')"

fun f_lt :: "pyfloat \<Rightarrow> pyfloat \<Rightarrow> bool" where
  "f_lt NaN _ = False"
| "f_lt _ NaN = False"
| "f_lt (Fin x) (Fin y) = (x < y)"
| "f_lt (Fin x) (Inf neg) = (\<not> neg)"
| "f_lt (Inf neg) (Fin y) = neg"
| "f_lt (Inf neg) (Inf neg') = (neg \<and> \<not> neg')"

datatype reader = Rinex2NavReader | Rinex3NavReader

text \<open>
  \<^verbatim>\<open>read_rinex_nav\<close>, up to the choice of the reader class, as a function of the first
  line of the file (\<^verbatim>\<open>f.readline()\<close>).
\<close>

definition select_reader :: "string \<Rightarrow> py_error + reader" where
  "select_reader first_line =
     (case py_float (strip (slice 0 9 first_line)) of
        None \<Rightarrow> Inl (ValueError ''Cannot determine RINEX version from file'')
      | Some version \<Rightarrow>
          if f_le (Fin 2) version \<and> f_lt version (Fin 3) then Inr Rinex2NavReader
          else if f_le (Fin 3) version then Inr Rinex3NavReader
          else Inl (ValueError ''Unsupported RINEX version''))"

section \<open>The version 3/4 record parser\<close>

text \<open>The local function \<^verbatim>\<open>parse_sci_notation\<close>; \<open>None\<close> is the \<^verbatim>\<open>ValueError\<close> of \<^verbatim>\<open>float\<close>.\<close>

definition parse_sci_notation :: "string \<Rightarrow> pyfloat option" where
  "parse_sci_notation s =
     (let value_str = replace_D_E s in
      if value_str \<noteq> [] \<and> last value_str = CHR ''-'' \<and> contains ''E-'' value_str
        then py_float (butlast value_str)
      else if value_str \<noteq> [] \<and> last value_str = CHR ''+'' \<and> contains ''E+'' value_str
        then py_float (butlast value_str)
      else py_float value_str)"

text \<open>
  The three clock terms of the first line: a \<^verbatim>\<open>ValueError\<close> in any of them resets all
  three to 0.0.
\<close>

definition v3_clock :: "string \<Rightarrow> pyfloat \<times> pyfloat \<times> pyfloat" where
  "v3_clock line =
     (case (parse_sci_notation (strip (slice 23 42 line)),
            parse_sci_notation (strip (slice 42 61 line)),
            parse_sci_notation (strip (slice 61 80 line))) of
        (Some b, Some d, Some r) \<Rightarrow> (b, d, r)
      | _ \<Rightarrow> (Fin 0, Fin 0, Fin 0))"

definition num_lines :: "char \<Rightarrow> nat" where
  "num_lines sat_system = (if sat_system = CHR ''R'' \<or> sat_system = CHR ''S'' then 4 else 8)"

text \<open>
  The fields of one continuation line: field \<open>k\<close> is appended only when the line holds
  all of its 19 columns.
\<close>

definition v3_line_params :: "string \<Rightarrow> pyfloat list" where
  "v3_line_params line =
     concat (map (\<lambda>k. let start_idx = k * 19 + 4; end_idx = start_idx + 19 in
                       if start_idx < length line \<and> end_idx \<le> length line then
                         (let param_str = strip (slice start_idx end_idx line) in
                          if param_str \<noteq> [] then
                            [case parse_sci_notation param_str of Some v \<Rightarrow> v | None \<Rightarrow> NaN]
                          else [NaN])
                       else [])
                 [0, 1, 2, 3])"

definition v3_orbital_params :: "string list \<Rightarrow> pyfloat list" where
  "v3_orbital_params cont =
     concat (map (\<lambda>line. if strip line = [] then [] else v3_line_params line) cont)"

text \<open>The keys of a record and the index of \<^verbatim>\<open>orbital_params\<close> each one reads.\<close>

definition glonass_names :: "string list" where
  "glonass_names =
     [''Tau'', ''Gamma'', ''tb'', ''X'', ''X_velocity'', ''X_acceleration'', ''health'',
      ''Y'', ''Y_velocity'', ''Y_acceleration'', ''frequency_number'',
      ''Z'', ''Z_velocity'', ''Z_acceleration'', ''Age'']"

definition kepler_names :: "string list" where
  "kepler_names =
     [''Crs'', ''Delta_n'', ''M0'', ''Cuc'', ''e'', ''Cus'', ''sqrt_A'', ''Toe'', ''Cic'',
      ''OMEGA'', ''Cis'', ''i0'', ''Crc'', ''omega'', ''OMEGA_DOT'', ''IDOT'']"

definition system_keys :: "char \<Rightarrow> (string \<times> nat) list" where
  "system_keys sat_system =
     (if sat_system = CHR ''G'' \<or> sat_system = CHR ''J'' then zip param_names [0..<26]
      else if sat_system = CHR ''R'' then zip glonass_names [0..<15]
      else if sat_system = CHR ''C'' then
        (''AODE'', 0) # zip kepler_names [1..<17] @
        [(''BDT_week'', 18), (''SV_accuracy'', 20), (''SatH1'', 21), (''TGD1'', 22),
         (''TGD2'', 23), (''Transmission_time'', 24)]
      else if sat_system = CHR ''E'' then
        (''IODnav'', 0) # zip kepler_names [1..<17] @
        [(''Data_sources'', 17), (''GAL_week'', 18), (''SISA'', 20), (''SV_health'', 21),
         (''BGD_E5a_E1'', 22), (''BGD_E5b_E1'', 23), (''Transmission_time'', 24)]
      else [])"

definition keyed :: "(string \<times> nat) list \<Rightarrow> pyfloat list \<Rightarrow> (string \<times> pyfloat) list" where
  "keyed keys orbital_params =
     map (\<lambda>(name, k). (name, if k < length orbital_params then orbital_params ! k else NaN)) keys"

text \<open>
  One pass of the loop body of \<^verbatim>\<open>Rinex3NavReader._parse_data\<close> on a line that is not blank,
  with the lines after it: the satellite system, and the record. Nothing here is inside a
  \<^verbatim>\<open>try\<close> block except the clock terms and the orbital fields.
\<close>

definition v3_record :: "string \<Rightarrow> string list \<Rightarrow> py_error + char \<times> nav_record" where
  "v3_record line rest =
     (let sat_id = strip (slice 0 3 line) in
      case sat_id of
        [] \<Rightarrow> Inl (IndexError ''string index out of range'')
      | sat_system # _ \<Rightarrow>
          ebind (int_field 1 3 sat_id) (\<lambda>prn.
          ebind (int_field 4 8 line) (\<lambda>year.
          ebind (int_field 9 11 line) (\<lambda>month.
          ebind (int_field 12 14 line) (\<lambda>day.
          ebind (int_field 15 17 line) (\<lambda>hour.
          ebind (int_field 18 20 line) (\<lambda>minute.
          ebind (float_field 21 23 line) (\<lambda>second.
          let (sv_clock_bias, sv_clock_drift, sv_clock_drift_rate) = v3_clock line;
              orbital_params = v3_orbital_params (take (num_lines sat_system - 1) rest)
          in
          ebind (make_epoch year month day hour minute second) (\<lambda>epoch.
            Inr (sat_system,
                 \<lparr>PRN = prn, Epoch = epoch, SV_clock_bias = sv_clock_bias,
                  SV_clock_drift = sv_clock_drift, SV_clock_drift_rate = sv_clock_drift_rate,
                  orbital = keyed (system_keys sat_system) orbital_params\<rparr>))))))))))"

text \<open>\<^verbatim>\<open>records_by_system\<close>: a dictionary in insertion order.\<close>

fun append_record ::
  "char \<Rightarrow> nav_record \<Rightarrow> (char \<times> nav_record list) list \<Rightarrow> (char \<times> nav_record list) list"
where
  "append_record sys r [] = [(sys, [r])]"
| "append_record sys r ((sys', rs) # store) =
     (if sys = sys' then (sys', rs @ [r]) # store else (sys', rs) # append_record sys r store)"

function v3_records ::
  "string list \<Rightarrow> (char \<times> nav_record list) list \<Rightarrow> py_error + (char \<times> nav_record list) list"
where
  "v3_records [] store = Inr store"
| "v3_records (line # rest) store =
     (if strip line = [] then v3_records rest store
      else
        (case v3_record line rest of
           Inl e \<Rightarrow> Inl e
         | Inr (sat_system, r) \<Rightarrow>
             v3_records (drop (num_lines sat_system - 1) rest) (append_record sat_system r store)))"
  by pat_completeness auto
termination
  by (relation "measure (\<lambda>(lines, store). length lines)") auto

text \<open>\<^verbatim>\<open>Rinex3NavReader._parse_data\<close>: \<^verbatim>\<open>self.data\<close>, or the exception that ends the parse.\<close>

definition v3_parse_data :: "string \<Rightarrow> py_error + (char \<times> nav_record list) list" where
  "v3_parse_data data_content = v3_records (split_on (CHR 0x0A) (strip data_content)) []"

text \<open>The collection of one satellite system in \<^verbatim>\<open>records_by_system\<close>.\<close>

definition collection :: "(char \<times> nav_record list) list \<Rightarrow> char \<Rightarrow> nav_record list" where
  "collection store sys = (case map_of store sys of Some rs \<Rightarrow> rs | None \<Rightarrow> [])"

section \<open>GPS time\<close>

definition gps_epoch :: datetime where
  "gps_epoch = (ymd2ord 1980 1 6 - 1) * 86400000000"

text \<open>
  \<^verbatim>\<open>timedelta(weeks=week, seconds=seconds)\<close> in microseconds, for an \<^verbatim>\<open>int\<close> number of weeks
  and a \<^verbatim>\<open>float\<close> number of seconds. The whole seconds are converted exactly; the
  fraction is multiplied by 1e6 in floating point, its whole part added, and what is left
  rounded to the nearest microsecond, a half going to the even total. The number of days
  is limited to nine digits.
\<close>

definition whole_us :: "real \<Rightarrow> bool \<Rightarrow> int" where
  "whole_us leftover_us x_is_odd =
     (if \<bar>real_of_int (round_half_away leftover_us) - leftover_us\<bar> = 1 / 2 then
        2 * round_half_away ((leftover_us + of_bool x_is_odd) * (1 / 2)) - of_bool x_is_odd
      else round_half_away leftover_us)"

definition seconds_to_us :: "real \<Rightarrow> int \<times> real" where
  "seconds_to_us s =
     (let intpart = trunc s; fracpart = s - real_of_int intpart in
      if fracpart = 0 then (intpart * 1000000, 0)
      else
        (let dnum = rd (1000000 * fracpart) in
         (intpart * 1000000 + trunc dnum, dnum - real_of_int (trunc dnum))))"

definition timedelta :: "int \<Rightarrow> pyfloat \<Rightarrow> py_error + int" where
  "timedelta week seconds =
     (case seconds of
        NaN \<Rightarrow> Inl (ValueError ''cannot convert float NaN to integer'')
      | Inf _ \<Rightarrow> Inl (OverflowError ''cannot convert float infinity to integer'')
      | Fin s \<Rightarrow>
          (let (y, leftover_us) = seconds_to_us s;
               x = y + week * 604800000000;
               us = (if leftover_us = 0 then x else x + whole_us leftover_us (odd x))
           in if \<bar>us div 86400000000\<bar> \<le> 999999999 then Inr us
              else Inl (OverflowError ''days; must have magnitude <= 999999999'')))"

definition datetime_add :: "datetime \<Rightarrow> int \<Rightarrow> py_error + datetime" where
  "datetime_add d delta =
     (if 0 \<le> d + delta \<and> d + delta \<le> max_datetime then Inr (d + delta)
      else Inl (OverflowError ''date value out of range''))"

definition gps_time_to_datetime :: "int \<Rightarrow> pyfloat \<Rightarrow> py_error + datetime" where
  "gps_time_to_datetime week seconds = ebind (timedelta week seconds) (datetime_add gps_epoch)"

text \<open>
  \<^verbatim>\<open>(a - b).total_seconds()\<close>: the number of microseconds, an \<^verbatim>\<open>int\<close>, divided by \<open>10 ** 6\<close>,
  correctly rounded.
\<close>

definition total_seconds :: "datetime \<Rightarrow> datetime \<Rightarrow> real" where
  "total_seconds a b = rd (real_of_int (a - b) / 1000000)"

text \<open>\<^verbatim>\<open>datetime_to_gps_time\<close>: the week \<^verbatim>\<open>int(total_seconds / 604800)\<close> and \<^verbatim>\<open>total_seconds % 604800\<close>.\<close>

definition datetime_to_gps_time :: "datetime \<Rightarrow> int \<times> real" where
  "datetime_to_gps_time d =
     (let ts = total_seconds d gps_epoch in (trunc (rd (ts / 604800)), float_mod ts 604800))"

text \<open>
  The round trip: \<^verbatim>\<open>gps_time_to_datetime(*datetime_to_gps_time(dt))\<close>.
\<close>

definition round_trip :: "datetime \<Rightarrow> py_error + datetime" where
  "round_trip d =
     (let (week, sow) = datetime_to_gps_time d in gps_time_to_datetime week (Fin sow))"

section \<open>Row selection\<close>

text \<open>
  A row of a navigation table: the columns \<^verbatim>\<open>PRN\<close> and \<^verbatim>\<open>Epoch\<close>, and the float columns by
  name (\<open>None\<close>: the table has no such column). The parameter columns hold floats, as
  both parsers build them. \<^verbatim>\<open>sort_values('Epoch')\<close> is modelled by a stable sort.
\<close>

record nav_row =
  row_PRN :: int
  row_Epoch :: datetime
  cells :: "string \<Rightarrow> pyfloat option"

definition select_row :: "nav_row list \<Rightarrow> datetime \<Rightarrow> int \<Rightarrow> py_error + nav_row" where
  "select_row nav_data time prn =
     (let sat_data = sort_key row_Epoch (filter (\<lambda>r. row_PRN r = prn) nav_data) in
      if sat_data = [] then Inl (ValueError ''No navigation data found for {sat_system}{prn:02d}'')
      else
        (case filter (\<lambda>r. row_Epoch r \<le> time) sat_data of
           [] \<Rightarrow> Inl (IndexError ''single positional indexer is out-of-bounds'')
         | rs \<Rightarrow> Inr (last rs)))"

text \<open>\<^verbatim>\<open>param not in closest_row or pd.isna(closest_row[param])\<close>, for each name in turn.\<close>

definition missing :: "(string \<Rightarrow> pyfloat option) \<Rightarrow> string \<Rightarrow> bool" where
  "missing row param = (case row param of None \<Rightarrow> True | Some v \<Rightarrow> isnan v)"

fun check_required :: "string list \<Rightarrow> (string \<Rightarrow> pyfloat option) \<Rightarrow> py_error + unit" where
  "check_required [] row = Inr ()"
| "check_required (param # params) row =
     (if missing row param
      then Inl (ValueError (''Missing or NaN value for '' @ param @ '' in navigation data''))
      else check_required params row)"

definition required_params :: "string list" where
  "required_params =
     [''sqrt_A'', ''e'', ''M0'', ''omega'', ''OMEGA'', ''i0'', ''Delta_n'', ''Cuc'', ''Cus'',
      ''Crc'', ''Crs'', ''Cic'', ''Cis'', ''IDOT'', ''OMEGA_DOT'']"

section \<open>Resolving the reference epoch\<close>

text \<open>
  The week of \<^verbatim>\<open>Toe\<close>: the first of the week columns that is present and not NaN;
  \<^verbatim>\<open>int(float(...))\<close> of an infinity raises an \<^verbatim>\<open>OverflowError\<close> that the handler
  \<^verbatim>\<open>except (ValueError, TypeError)\<close> lets through.
\<close>

fun find_week :: "string list \<Rightarrow> (string \<Rightarrow> pyfloat option) \<Rightarrow> py_error + int option" where
  "find_week [] row = Inr None"
| "find_week (week_col # cols) row =
     (if missing row week_col then find_week cols row
      else
        (case int_of_float (the (row week_col)) of
           Inr week \<Rightarrow> Inr (Some week)
         | Inl (ValueError _) \<Rightarrow> find_week cols row
         | Inl e \<Rightarrow> Inl e))"

definition week_columns :: "string list" where
  "week_columns = [''GPS_week'', ''GAL_week'', ''BDT_week'']"

text \<open>
  \<open>now\<close> is the value of \<^verbatim>\<open>datetime.now()\<close> at the time of the call: when no week column
  is populated, the week is the current GPS week.
\<close>

definition toe_datetime :: "datetime \<Rightarrow> (string \<Rightarrow> pyfloat option) \<Rightarrow> pyfloat \<Rightarrow> py_error + datetime" where
  "toe_datetime now row toe =
     ebind (find_week week_columns row) (\<lambda>found.
       let week = (case found of Some w \<Rightarrow> w | None \<Rightarrow> fst (datetime_to_gps_time now))
       in gps_time_to_datetime week toe)"

section \<open>The orbit propagator\<close>

definition mu :: real where
  "mu = 398600500000000"

definition omega_e :: real where
  "omega_e = 72921151467 / 10 ^ 15"

text \<open>
  \<^verbatim>\<open>np.sin\<close> on a double: the correctly rounded sine. (The C library's sine is within one
  unit in the last place of it; the loop below takes the sine as an argument, and what is
  proved of it holds for every sine within \<open>2 ^ -52\<close> of the exact one.)
\<close>

definition np_sin :: "real \<Rightarrow> real" where
  "np_sin x = rd (sin x)"

text \<open>
  The loop \<^verbatim>\<open>for _ in range(10): E_next = M + e * np.sin(E); if abs(E_next - E) < 1e-12: break;
  E = E_next\<close>, started at \<open>E = M\<close>, in doubles: the product, the sum and the difference are
  rounded, and \<^verbatim>\<open>1e-12\<close> is the double nearest to it. \<open>sn\<close> is the sine.
\<close>

fun kepler_iter :: "(real \<Rightarrow> real) \<Rightarrow> nat \<Rightarrow> real \<Rightarrow> real \<Rightarrow> real \<Rightarrow> real" where
  "kepler_iter sn 0 M e E = E"
| "kepler_iter sn (Suc k) M e E =
     (let E_next = rd (M + rd (e * sn E)) in
      if \<bar>rd (E_next - E)\<bar> < rd (1 / 10 ^ 12) then E else kepler_iter sn k M e E_next)"

definition kepler :: "(real \<Rightarrow> real) \<Rightarrow> real \<Rightarrow> real \<Rightarrow> real" where
  "kepler sn M e = kepler_iter sn 10 M e M"

definition arctan2 :: "real \<Rightarrow> real \<Rightarrow> real" where
  "arctan2 y x =
     (if 0 < x then arctan (y / x)
      else if x < 0 then (if 0 \<le> y then arctan (y / x) + pi else arctan (y / x) - pi)
      else if 0 < y then pi / 2 else if y < 0 then - (pi / 2) else 0)"

record orbit =
  X :: real
  Y :: real
  Z :: real
  VX :: real
  VY :: real
  VZ :: real

text \<open>
  Lines 108 to 231 of \<^verbatim>\<open>interpolate_orbit\<close>, on the real values \<open>p\<close> of the parameters.
  Outside the loop that solves Kepler's equation the arithmetic is exact.
\<close>

definition orbit_state :: "(string \<Rightarrow> real) \<Rightarrow> real \<Rightarrow> real \<Rightarrow> orbit" where
  "orbit_state p dt toe =
     (let A = (p ''sqrt_A'')\<^sup>2;
          n0 = sqrt (mu / A ^ 3);
          n = n0 + p ''Delta_n'';
          M = p ''M0'' + n * dt;
          e = p ''e'';
          E = kepler np_sin M e;
          v = arctan2 (sqrt (1 - e\<^sup>2) * sin E) (cos E - e);
          phi = v + p ''omega'';
          du = p ''Cuc'' * cos (2 * phi) + p ''Cus'' * sin (2 * phi);
          dr = p ''Crc'' * cos (2 * phi) + p ''Crs'' * sin (2 * phi);
          di = p ''Cic'' * cos (2 * phi) + p ''Cis'' * sin (2 * phi);
          u = phi + du;
          r = A * (1 - e * cos E) + dr;
          i = p ''i0'' + di + p ''IDOT'' * dt;
          x_prime = r * cos u;
          y_prime = r * sin u;
          Omega = p ''OMEGA'' + (p ''OMEGA_DOT'' - omega_e) * dt - omega_e * toe;
          E_dot = n / (1 - e * cos E);
          phi_dot = sqrt (1 - e\<^sup>2) * E_dot / (1 - e * cos E);
          u_dot = phi_dot * (1 + 2 * (p ''Cus'' * cos (2 * phi) - p ''Cuc'' * sin (2 * phi)));
          r_dot = A * e * sin E * E_dot
                  + 2 * phi_dot * (p ''Crs'' * cos (2 * phi) - p ''Crc'' * sin (2 * phi));
          x_prime_dot = r_dot * cos u - r * u_dot * sin u;
          y_prime_dot = r_dot * sin u + r * u_dot * cos u;
          Omega_dot = p ''OMEGA_DOT'' - omega_e;
          i_dot = p ''IDOT''
                  + 2 * phi_dot * (p ''Cis'' * cos (2 * phi) - p ''Cic'' * sin (2 * phi))
      in \<lparr>X = x_prime * cos Omega - y_prime * cos i * sin Omega,
          Y = x_prime * sin Omega + y_prime * cos i * cos Omega,
          Z = y_prime * sin i,
          VX = x_prime_dot * cos Omega - y_prime_dot * cos i * sin Omega
               - y_prime * sin i * i_dot * sin Omega
               - (x_prime * sin Omega + y_prime * cos i * cos Omega) * Omega_dot,
          VY = x_prime_dot * sin Omega + y_prime_dot * cos i * cos Omega
               + y_prime * sin i * i_dot * cos Omega
               + (x_prime * cos Omega - y_prime * cos i * sin Omega) * Omega_dot,
          VZ = y_prime_dot * sin i + y_prime * cos i * i_dot\<rparr>)"

text \<open>
  The arithmetic is carried out on real numbers. Where the code's float arithmetic leaves
  them (an infinite parameter, a division by zero, the square root of a negative number),
  it does not raise: it returns a dictionary holding infinities or NaN, which is the
  outcome \<open>NonFinite\<close>.
\<close>

datatype 'a returned = Value 'a | NonFinite

definition is_fin :: "pyfloat \<Rightarrow> bool" where
  "is_fin v = (case v of Fin _ \<Rightarrow> True | _ \<Rightarrow> False)"

definition the_real :: "pyfloat \<Rightarrow> real" where
  "the_real v = (case v of Fin x \<Rightarrow> x | _ \<Rightarrow> 0)"

definition number :: "(string \<Rightarrow> pyfloat option) \<Rightarrow> string \<Rightarrow> real" where
  "number row name = (case row name of Some v \<Rightarrow> the_real v | None \<Rightarrow> 0)"

definition all_finite :: "string list \<Rightarrow> (string \<Rightarrow> pyfloat option) \<Rightarrow> bool" where
  "all_finite names row = list_all (\<lambda>name. case row name of Some v \<Rightarrow> is_fin v | None \<Rightarrow> False) names"

definition orbit_defined :: "(string \<Rightarrow> real) \<Rightarrow> real \<Rightarrow> bool" where
  "orbit_defined p dt =
     (let A = (p ''sqrt_A'')\<^sup>2;
          M = p ''M0'' + (sqrt (mu / A ^ 3) + p ''Delta_n'') * dt;
          e = p ''e''
      in p ''sqrt_A'' \<noteq> 0 \<and> e\<^sup>2 \<le> 1 \<and> 1 - e * cos (kepler np_sin M e) \<noteq> 0)"

text \<open>
  \<^verbatim>\<open>interpolate_orbit(nav_data, time, sat_system, prn)\<close>, called when the clock reads \<open>now\<close>.
\<close>

definition interpolate_orbit ::
  "datetime \<Rightarrow> nav_row list \<Rightarrow> datetime \<Rightarrow> string \<Rightarrow> int \<Rightarrow> py_error + orbit returned"
where
  "interpolate_orbit now nav_data time sat_system prn =
     (if sat_system \<noteq> ''G'' \<and> sat_system \<noteq> ''J''
      then Inl (ValueError ''Interpolation for {sat_system} not supported yet.'')
      else
        ebind (select_row nav_data time prn) (\<lambda>closest_row.
        ebind (check_required required_params (cells closest_row)) (\<lambda>_.
        case cells closest_row ''Toe'' of
          None \<Rightarrow> Inl (KeyError ''Toe'')
        | Some toe \<Rightarrow>
            ebind (toe_datetime now (cells closest_row) toe) (\<lambda>toe_dt.
              let dt = total_seconds time toe_dt;
                  p = number (cells closest_row)
              in Inr (if all_finite required_params (cells closest_row) \<and> orbit_defined p dt
                      then Value (orbit_state p dt (the_real toe))
                      else NonFinite)))))"

section \<open>The clock model\<close>

definition clock_params :: "string list" where
  "clock_params = [''SV_clock_bias'', ''SV_clock_drift'', ''SV_clock_drift_rate'']"

definition relativistic :: "(string \<Rightarrow> real) \<Rightarrow> real \<Rightarrow> real" where
  "relativistic p dt_toe =
     (let e = p ''e'';
          A = (p ''sqrt_A'')\<^sup>2;
          n0 = sqrt (mu / A ^ 3);
          M = p ''M0'' + n0 * dt_toe;
          E = kepler np_sin M e;
          F = - 2 * sqrt mu / (300000000)\<^sup>2
      in F * e * sqrt A * sin E)"

text \<open>
  \<^verbatim>\<open>compute_sv_clock_correction(nav_data, time, sat_system, prn)\<close>, called when the clock
  reads \<open>now\<close>.
\<close>

definition compute_sv_clock_correction ::
  "datetime \<Rightarrow> nav_row list \<Rightarrow> datetime \<Rightarrow> string \<Rightarrow> int \<Rightarrow> py_error + real returned"
where
  "compute_sv_clock_correction now nav_data time sat_system prn =
     ebind (select_row nav_data time prn) (\<lambda>closest_row.
     ebind (check_required clock_params (cells closest_row)) (\<lambda>_.
       let row = cells closest_row;
           p = number row;
           dt = total_seconds time (row_Epoch closest_row);
           dt_corr = p ''SV_clock_bias'' + p ''SV_clock_drift'' * dt + p ''SV_clock_drift_rate'' * dt\<^sup>2;
           finite = all_finite clock_params row
       in
       if (sat_system = ''G'' \<or> sat_system = ''J'') \<and> \<not> missing row ''e'' \<and> \<not> missing row ''sqrt_A''
          \<and> \<not> missing row ''Toe'' \<and> \<not> missing row ''M0''
       then
         ebind (toe_datetime now row (the (row ''Toe''))) (\<lambda>toe_dt.
           Inr (if finite \<and> all_finite [''e'', ''sqrt_A'', ''M0''] row \<and> p ''sqrt_A'' \<noteq> 0
                then Value (dt_corr + relativistic p (total_seconds time toe_dt))
                else NonFinite))
       else Inr (if finite then Value dt_corr else NonFinite)))"

section \<open>Dilution of precision\<close>













text \<open>The residual of Kepler's equation at \<open>E\<close>.\<close>

definition residual :: "real \<Rightarrow> real \<Rightarrow> real \<Rightarrow> real" where
  "residual M e E = \<bar>M - (E - e * sin E)\<bar>"

section \<open>Example lines\<close>

text \<open>
  The first line of a version 2 record of PRN 1 at 2002-01-01 00:00:00.0 whose clock bias
  (columns 23-41) is blank, with the clock drift -1.000444171950D-11 and the drift rate 0.
\<close>

definition blank_bias_line :: string where
  "blank_bias_line =
     '' 1 02  1  1  0  0  0.0'' @ replicate 19 (CHR '' '')
       @ ''-1.000444171950D-11 0.000000000000D+00''"

section \<open>Example rows\<close>

text \<open>A GPS row whose orbital parameters are all present, with a week, whose \<^verbatim>\<open>Toe\<close> is NaN.\<close>

definition toe_nan_row :: nav_row where
  "toe_nan_row =
     \<lparr>row_PRN = 1, row_Epoch = 63776592000000000,
      cells = map_of
        [(''sqrt_A'', Fin 5153), (''e'', Fin (1 / 100)), (''M0'', Fin 0), (''omega'', Fin 0),
         (''OMEGA'', Fin 0), (''i0'', Fin 1), (''Delta_n'', Fin 0), (''Cuc'', Fin 0),
         (''Cus'', Fin 0), (''Crc'', Fin 0), (''Crs'', Fin 0), (''Cic'', Fin 0), (''Cis'', Fin 0),
         (''IDOT'', Fin 0), (''OMEGA_DOT'', Fin 0), (''Toe'', NaN), (''GPS_week'', Fin 2190)]\<rparr>"

text \<open>
  A GPS row without any week column, of epoch 2021-12-26 00:00:00 (the start of GPS week
  2190), on a circular orbit: every parameter is 0 but \<^verbatim>\<open>sqrt_A\<close> and \<^verbatim>\<open>IDOT\<close>.
\<close>

definition no_week_row :: nav_row where
  "no_week_row =
     \<lparr>row_PRN = 1, row_Epoch = 63776073600000000,
      cells = map_of
        [(''sqrt_A'', Fin 100000), (''e'', Fin 0), (''M0'', Fin 0), (''omega'', Fin 0),
         (''OMEGA'', Fin 0), (''i0'', Fin 0), (''Delta_n'', Fin 0), (''Cuc'', Fin 0),
         (''Cus'', Fin 0), (''Crc'', Fin 0), (''Crs'', Fin 0), (''Cic'', Fin 0), (''Cis'', Fin 0),
         (''IDOT'', Fin (1 / 1000000)), (''OMEGA_DOT'', Fin 0), (''Toe'', Fin 0)]\<rparr>"

text \<open>The same row with the week column \<^verbatim>\<open>GPS_week\<close>.\<close>

definition week_row :: nav_row where
  "week_row = no_week_row\<lparr>cells := (cells no_week_row)(''GPS_week'' \<mapsto> Fin 2190)\<rparr>"



section \<open>Properties\<close>

subsection \<open>Rounding to a double\<close>

text \<open>
  The exponent of a double, computed from the number of bits of an integer: an equation by
  which \<open>rd\<close> is evaluated.
\<close>

lemma floor_log2_ge1:
  assumes "1 \<le> a"
  shows "\<lfloor>log 2 a\<rfloor> = bitlen \<lfloor>a\<rfloor> - 1"
proof -
  define n where "n = \<lfloor>a\<rfloor>"
  have n1: "1 \<le> n"
    using assms by (simp add: n_def le_floor_iff)
  define k where "k = \<lfloor>log 2 (real_of_int n)\<rfloor>"
  have bl: "bitlen n = k + 1"
    using n1 by (simp add: bitlen_alt_def k_def)
  have lo: "2 powr real_of_int k \<le> real_of_int n" and hi: "real_of_int n < 2 powr real_of_int (k + 1)"
    using floor_log_eq_powr_iff [of "real_of_int n" 2 k] n1 by (simp_all add: k_def)
  have k0: "0 \<le> k"
    using n1 by (simp add: k_def)
  have p1: "2 powr real_of_int (k + 1) = real_of_int (2 ^ nat (k + 1))"
    using k0 powr_real_of_int [of 2 "k + 1"] by (simp del: of_int_add)
  with hi have "n < 2 ^ nat (k + 1)"
    by (simp only: of_int_less_iff)
  then have "n + 1 \<le> 2 ^ nat (k + 1)"
    by simp
  then have "real_of_int (n + 1) \<le> real_of_int (2 ^ nat (k + 1))"
    by (simp only: of_int_le_iff)
  then have "real_of_int n + 1 \<le> real_of_int (2 ^ nat (k + 1))"
    by simp
  then have hi': "real_of_int n + 1 \<le> 2 powr real_of_int (k + 1)"
    by (simp only: p1)
  have "real_of_int n \<le> a" "a < real_of_int n + 1"
    unfolding n_def by linarith+
  with lo hi' have "2 powr real_of_int k \<le> a" "a < 2 powr real_of_int (k + 1)"
    by linarith+
  then have "\<lfloor>log 2 a\<rfloor> = k"
    using assms by (subst floor_log_eq_powr_iff) auto
  with bl show ?thesis
    unfolding n_def by simp
qed

lemma floor_log2_lt1:
  assumes "0 < a" "a < 1"
  shows "\<lfloor>log 2 a\<rfloor> = - bitlen (\<lceil>1 / a\<rceil> - 1)"
proof -
  define m where "m = \<lceil>1 / a\<rceil>"
  have z1: "1 < 1 / a"
    using assms by simp
  have m2: "2 \<le> m"
    unfolding m_def using z1 by linarith
  define k where "k = \<lfloor>log 2 (real_of_int (m - 1))\<rfloor>"
  have bl: "bitlen (m - 1) = k + 1"
    using m2 by (simp add: bitlen_alt_def k_def)
  have k0: "0 \<le> k"
    using m2 by (simp add: k_def)
  have lo: "2 powr real_of_int k \<le> real_of_int (m - 1)"
    and hi: "real_of_int (m - 1) < 2 powr real_of_int (k + 1)"
    using floor_log_eq_powr_iff [of "real_of_int (m - 1)" 2 k] m2 by (simp_all add: k_def)
  have p1: "2 powr real_of_int (k + 1) = real_of_int (2 ^ nat (k + 1))"
    using k0 powr_real_of_int [of 2 "k + 1"] by (simp del: of_int_add)
  with hi have "m - 1 < 2 ^ nat (k + 1)"
    by (simp only: of_int_less_iff)
  then have "m \<le> 2 ^ nat (k + 1)"
    by simp
  then have "real_of_int m \<le> real_of_int (2 ^ nat (k + 1))"
    by (simp only: of_int_le_iff)
  then have hi': "real_of_int m \<le> 2 powr real_of_int (k + 1)"
    by (simp only: p1)
  have "real_of_int m - 1 < 1 / a" "1 / a \<le> real_of_int m"
    unfolding m_def by linarith+
  with lo hi' have zlo: "2 powr real_of_int k < 1 / a" and zhi: "1 / a \<le> 2 powr real_of_int (k + 1)"
    by simp_all
  have pk: "0 < (2 :: real) powr real_of_int k" "0 < (2 :: real) powr real_of_int (k + 1)"
    by simp_all
  have "a < 1 / 2 powr real_of_int k"
    using zlo assms(1) pk(1) by (simp add: field_simps)
  then have ahi: "a < 2 powr real_of_int (- (k + 1) + 1)"
    by (simp add: powr_minus inverse_eq_divide)
  have "1 / 2 powr real_of_int (k + 1) \<le> a"
    using zhi assms(1) pk(2) by (simp add: field_simps)
  moreover have "2 powr real_of_int (- (k + 1)) = 1 / 2 powr real_of_int (k + 1)"
    by (simp only: of_int_minus powr_minus inverse_eq_divide)
  ultimately have alo: "2 powr real_of_int (- (k + 1)) \<le> a"
    by simp
  have "\<lfloor>log 2 a\<rfloor> = - (k + 1)"
    using assms alo ahi by (subst floor_log_eq_powr_iff) auto
  with bl show ?thesis
    unfolding m_def by simp
qed

lemma rd_code [code]:
  "rd x =
     (if x = 0 then 0
      else
        (let a = \<bar>x\<bar>;
             e = (if 1 \<le> a then bitlen \<lfloor>a\<rfloor> - 1 else - bitlen (\<lceil>1 / a\<rceil> - 1));
             k = max e (- 1022) - 52;
             u = (if 0 \<le> k then 2 ^ nat k else 1 / 2 ^ nat (- k))
         in sgn x * (real_of_int (round_half_even (a / u)) * u)))"
proof (cases "x = 0")
  case True
  then show ?thesis by (simp add: rd_def)
next
  case False
  then have a: "0 < \<bar>x\<bar>" by simp
  have e: "\<lfloor>log 2 \<bar>x\<bar>\<rfloor> = (if 1 \<le> \<bar>x\<bar> then bitlen \<lfloor>\<bar>x\<bar>\<rfloor> - 1 else - bitlen (\<lceil>1 / \<bar>x\<bar>\<rceil> - 1))"
    using a floor_log2_ge1 [of "\<bar>x\<bar>"] floor_log2_lt1 [of "\<bar>x\<bar>"] by auto
  have u: "2 powr real_of_int k = (if 0 \<le> k then 2 ^ nat k else 1 / 2 ^ nat (- k))" for k
    by (simp add: powr_real_of_int inverse_eq_divide)
  show ?thesis
    unfolding rd_def e [symmetric] Let_def u [symmetric] using False by simp
qed

lemma round_half_even_int [simp]: "round_half_even (real_of_int k) = k"
  by (simp add: round_half_even_def)

lemma round_half_even_error: "\<bar>real_of_int (round_half_even y) - y\<bar> \<le> 1 / 2"
  unfolding round_half_even_def Let_def by (auto simp: abs_if) linarith+

lemma round_half_even_nonneg: "0 \<le> y \<Longrightarrow> 0 \<le> round_half_even y"
  unfolding round_half_even_def Let_def by auto

lemma rd_minus: "rd (- x) = - rd x"
  by (simp add: rd_def Let_def sgn_minus)

lemma rd_nonneg: "0 \<le> x \<Longrightarrow> 0 \<le> rd x"
  by (auto simp: rd_def Let_def sgn_if intro!: mult_nonneg_nonneg round_half_even_nonneg)

lemma rd_at:
  assumes "0 < x" "2 powr real_of_int e \<le> x" "x < 2 powr real_of_int (e + 1)" "- 1022 \<le> e"
  shows "rd x = real_of_int (round_half_even (x / 2 powr real_of_int (e - 52))) * 2 powr real_of_int (e - 52)"
proof -
  have "\<lfloor>log 2 x\<rfloor> = e"
    using assms by (subst floor_log_eq_powr_iff) auto
  with assms show ?thesis
    by (simp add: rd_def Let_def max_def)
qed

lemma rd_error:
  assumes "2 powr (- 1022) \<le> x"
  shows "\<bar>rd x - x\<bar> \<le> x / 2 ^ 53"
proof -
  have pos: "0 < x"
    using assms by (rule less_le_trans [rotated]) simp
  define e where "e = \<lfloor>log 2 x\<rfloor>"
  have lo: "2 powr real_of_int e \<le> x" and hi: "x < 2 powr real_of_int (e + 1)"
    using floor_log_eq_powr_iff [of x 2 e] pos by (simp_all add: e_def)
  have "(- 1022 :: real) \<le> log 2 x"
    using assms pos by (subst le_log_iff) auto
  then have e1022: "- 1022 \<le> e"
    unfolding e_def by (simp add: le_floor_iff)
  define u where "u = 2 powr real_of_int (e - 52)"
  have upos: "0 < u" by (simp add: u_def)
  have u52: "u * 2 ^ 52 = 2 powr real_of_int e"
  proof -
    have "2 powr real_of_int e = 2 powr (real_of_int (e - 52) + 52)"
      by simp
    also have "\<dots> = u * 2 powr 52"
      unfolding u_def by (rule powr_add)
    finally show ?thesis by simp
  qed
  have rdx: "rd x = real_of_int (round_half_even (x / u)) * u"
    unfolding u_def using pos lo hi e1022 by (rule rd_at)
  have "rd x - x = (real_of_int (round_half_even (x / u)) - x / u) * u"
    using upos by (simp add: rdx field_simps)
  then have "\<bar>rd x - x\<bar> = \<bar>real_of_int (round_half_even (x / u)) - x / u\<bar> * u"
    using upos by (simp add: abs_mult)
  also have "\<dots> \<le> 1 / 2 * u"
    using upos round_half_even_error [of "x / u"] by (intro mult_right_mono) auto
  also have "\<dots> = 2 powr real_of_int e / 2 ^ 53"
    using u52 [symmetric] by simp
  also have "\<dots> \<le> x / 2 ^ 53"
    using lo by (simp add: divide_right_mono)
  finally show ?thesis .
qed

lemma rd_int_pos:
  assumes "0 < k" "k < 2 ^ 53"
  shows "rd (real_of_int k) = real_of_int k"
proof -
  define e where "e = \<lfloor>log 2 (real_of_int k)\<rfloor>"
  have pos: "0 < real_of_int k" using assms by simp
  have lo: "2 powr real_of_int e \<le> real_of_int k" and hi: "real_of_int k < 2 powr real_of_int (e + 1)"
    using floor_log_eq_powr_iff [of "real_of_int k" 2 e] pos by (simp_all add: e_def)
  have "(0 :: real) \<le> log 2 (real_of_int k)"
    using assms by (subst le_log_iff) auto
  then have e0: "0 \<le> e"
    unfolding e_def by simp
  have "log 2 (real_of_int k) < 53"
    using assms pos by (subst log_less_iff) (auto simp flip: of_int_less_iff)
  then have e52: "e \<le> 52"
    unfolding e_def by (simp add: floor_less_iff flip: zless_add1_eq)
  define u where "u = 2 powr real_of_int (e - 52)"
  have u: "u = 1 / 2 ^ nat (52 - e)"
  proof -
    have "u = 2 powr (- real (nat (52 - e)))"
      using e52 by (simp add: u_def)
    also have "\<dots> = 1 / 2 ^ nat (52 - e)"
      by (simp add: powr_minus powr_realpow inverse_eq_divide)
    finally show ?thesis .
  qed
  have "real_of_int k / u = real_of_int (k * 2 ^ nat (52 - e))"
    by (simp add: u)
  then have "round_half_even (real_of_int k / u) = k * 2 ^ nat (52 - e)"
    by (simp only: round_half_even_int)
  moreover have "rd (real_of_int k) = real_of_int (round_half_even (real_of_int k / u)) * u"
    unfolding u_def using pos lo hi e0 by (intro rd_at) auto
  ultimately show ?thesis
    by (simp add: u)
qed

lemma rd_int: "\<bar>k\<bar> < 2 ^ 53 \<Longrightarrow> rd (real_of_int k) = real_of_int k"
proof (cases "0 < k")
  case True
  assume "\<bar>k\<bar> < 2 ^ 53"
  with True show ?thesis by (simp add: rd_int_pos)
next
  case False
  assume a: "\<bar>k\<bar> < 2 ^ 53"
  show ?thesis
  proof (cases "k = 0")
    case True
    then show ?thesis by (simp add: rd_def)
  next
    case nz: False
    with False a have "0 < - k" "- k < 2 ^ 53" by auto
    then have "rd (real_of_int (- k)) = real_of_int (- k)" by (rule rd_int_pos)
    then show ?thesis by (simp add: rd_minus)
  qed
qed

lemma rd_zero: "rd 0 = 0"
  by (simp add: rd_def)

lemma rd_error_small:
  assumes "0 < x" "x < 2 powr (- 1022)"
  shows "\<bar>rd x - x\<bar> \<le> 1 / 2 ^ 1075"
proof -
  have "log 2 x < - 1022"
    using assms by (subst log_less_iff) auto
  then have "\<lfloor>log 2 x\<rfloor> < - 1022"
    by (simp add: floor_less_iff)
  then have m: "max \<lfloor>log 2 x\<rfloor> (- 1022) = - 1022"
    by simp
  define u :: real where "u = 1 / 2 ^ 1074"
  have u: "2 powr (- 1074) = u"
    by (simp add: u_def powr_neg_numeral)
  have upos: "0 < u"
    by (simp add: u_def)
  have rdx: "rd x = real_of_int (round_half_even (x / u)) * u"
    using assms(1) by (simp add: rd_def Let_def m u)
  have "rd x - x = (real_of_int (round_half_even (x / u)) - x / u) * u"
    using upos by (simp add: rdx field_simps)
  then have "\<bar>rd x - x\<bar> = \<bar>real_of_int (round_half_even (x / u)) - x / u\<bar> * u"
    using upos by (simp add: abs_mult)
  also have "\<dots> \<le> 1 / 2 * u"
    using upos round_half_even_error [of "x / u"] by (intro mult_right_mono) auto
  also have "\<dots> = 1 / 2 ^ 1075"
    by (simp add: u_def)
  finally show ?thesis .
qed

lemma rd_error_pos:
  assumes "0 < x"
  shows "\<bar>rd x - x\<bar> \<le> x / 2 ^ 53 + 1 / 2 ^ 1075"
proof (cases "2 powr (- 1022) \<le> x")
  case True
  then have "\<bar>rd x - x\<bar> \<le> x / 2 ^ 53"
    by (rule rd_error)
  then show ?thesis
    by simp
next
  case False
  with assms have "\<bar>rd x - x\<bar> \<le> 1 / 2 ^ 1075"
    by (intro rd_error_small) auto
  moreover have "0 \<le> x / 2 ^ 53"
    using assms by simp
  ultimately show ?thesis
    by linarith
qed

lemma rd_error_abs: "\<bar>rd x - x\<bar> \<le> \<bar>x\<bar> / 2 ^ 53 + 1 / 2 ^ 1075"
proof -
  consider "x = 0" | "0 < x" | "0 < - x"
    by linarith
  then show ?thesis
  proof cases
    case 1
    then show ?thesis by (simp add: rd_def)
  next
    case 2
    then show ?thesis using rd_error_pos [of x] by simp
  next
    case 3
    then show ?thesis using rd_error_pos [of "- x"] by (simp add: rd_minus)
  qed
qed

lemma tiny: "(1 :: real) / 2 ^ 1075 \<le> 1 / 2 ^ 53" "(1 :: real) / 2 ^ 1075 \<le> 1 / 10 ^ 13"
  by simp_all

lemma tolerance: "0 < rd (1 / 10 ^ 12)" "rd (1 / 10 ^ 12) \<le> 2 / 10 ^ 12"
proof -
  have "2 powr (- 1022) \<le> (2 :: real) powr (- 50)"
    by (intro powr_mono) auto
  also have "\<dots> \<le> 1 / 10 ^ 12"
    by (simp add: powr_neg_numeral)
  finally have "\<bar>rd (1 / 10 ^ 12) - 1 / 10 ^ 12\<bar> \<le> 1 / 10 ^ 12 / 2 ^ 53"
    by (rule rd_error)
  moreover have "(1 :: real) / 10 ^ 12 / 2 ^ 53 \<le> 1 / 10 ^ 13"
    by simp
  ultimately have "\<bar>rd (1 / 10 ^ 12) - 1 / 10 ^ 12\<bar> \<le> 1 / 10 ^ 13"
    by (rule order_trans)
  then show "0 < rd (1 / 10 ^ 12)" "rd (1 / 10 ^ 12) \<le> 2 / 10 ^ 12"
    by (simp_all add: abs_if split: if_splits)
qed

lemma rd_near:
  assumes "1 / 100 \<le> x" "x \<le> 1"
  shows "\<bar>rd x - x\<bar> \<le> 1 / 10 ^ 15"
proof -
  have "2 powr (- 1022) \<le> (2 :: real) powr (- 7)"
    by (intro powr_mono) auto
  also have "\<dots> \<le> 1 / 100"
    by (simp add: powr_neg_numeral)
  also note assms(1)
  finally have "\<bar>rd x - x\<bar> \<le> x / 2 ^ 53"
    by (rule rd_error)
  also have "\<dots> \<le> 1 / 2 ^ 53"
    using assms(2) by (intro divide_right_mono) auto
  also have "\<dots> \<le> 1 / 10 ^ 15"
    by simp
  finally show ?thesis .
qed

lemma ebind_eq_Inr: "ebind m f = Inr y \<longleftrightarrow> (\<exists>x. m = Inr x \<and> f x = Inr y)"
  by (cases m) auto

lemma parse_rinex_float_blank:
  "list_all is_space s \<Longrightarrow> parse_rinex_float s = Inr (Fin 0)"
  by (cases s) (simp_all add: parse_rinex_float_def isspace_def)

lemma v2_record_clock_fields:
  assumes "v2_record line cont = Inr r"
  shows "parse_rinex_float (slice 22 41 line) = Inr (SV_clock_bias r)"
    and "parse_rinex_float (slice 41 60 line) = Inr (SV_clock_drift r)"
    and "parse_rinex_float (slice 60 79 line) = Inr (SV_clock_drift_rate r)"
  using assms unfolding v2_record_def Let_def ebind_eq_Inr by auto

text \<open>
  C9. The fixed-field numeric parser returns 0.0 for a blank string
  (\<open>parse_rinex_float_blank\<close>), and the clock terms are read from columns 23-41, 42-60 and
  61-79 of the line handed to the record parser (\<open>v2_record_clock_fields\<close>). But
  \<^verbatim>\<open>_parse_data\<close> strips the whole data section first, so the first record line loses its
  leading blank and is read one column to the left. On the line \<open>blank_bias_line\<close>, whose
  clock bias is blank and whose clock drift is negative, the bias is read from eighteen
  blanks and the sign of the drift, and stored as NaN (and the drift loses its sign); the
  same line after another record is stored with the bias 0.0.
\<close>

theorem blank_clock_bias_of_first_record:
  "list_all is_space (slice 22 41 blank_bias_line) \<and>
   v2_parse_data (blank_bias_line @ [CHR 0x0A]) =
     [\<lparr>PRN = 1, Epoch = 63145440000000000, SV_clock_bias = NaN,
       SV_clock_drift = Fin (1000444171950 / 10 ^ 23), SV_clock_drift_rate = Fin 0,
       orbital = []\<rparr>] \<and>
   v2_parse_data (''12 02  1  1  0  0  0.0'' @ replicate 8 (CHR 0x0A)
       @ blank_bias_line @ [CHR 0x0A]) =
     [\<lparr>PRN = 12, Epoch = 63145440000000000, SV_clock_bias = Fin 0,
       SV_clock_drift = Fin 0, SV_clock_drift_rate = Fin 0, orbital = []\<rparr>,
      \<lparr>PRN = 1, Epoch = 63145440000000000, SV_clock_bias = Fin 0,
       SV_clock_drift = Fin (- 1000444171950 / 10 ^ 23), SV_clock_drift_rate = Fin 0,
       orbital = []\<rparr>]"
  by code_simp

text \<open>
  C5. The fixed-field numeric parser is meant never to raise, and to return NaN when every
  strategy fails. On \<^verbatim>\<open>1.0D400\<close> the mantissa-exponent split computes
  \<^verbatim>\<open>1.0 * (10 ** 400)\<close>, whose \<^verbatim>\<open>OverflowError\<close> the handler
  \<^verbatim>\<open>except (ValueError, IndexError)\<close> does not catch: the call raises.
\<close>

theorem parse_rinex_float_overflow:
  "parse_rinex_float ''1.0D400'' = Inl (OverflowError ''int too large to convert to float'')"
  by code_simp

text \<open>
  C8. The version is read from the first nine columns of the first line. A number in
  [2, 3) selects the version 2 reader, a number from 3 on (4.00 included) the version 3/4
  reader, and a field that is not a number raises instead of selecting a reader.
\<close>

theorem version_dispatch:
  "(py_float (strip (slice 0 9 first_line)) = Some (Fin v) \<and> 2 \<le> v \<and> v < 3
      \<longrightarrow> select_reader first_line = Inr Rinex2NavReader) \<and>
   (py_float (strip (slice 0 9 first_line)) = Some (Fin v) \<and> 3 \<le> v
      \<longrightarrow> select_reader first_line = Inr Rinex3NavReader) \<and>
   (py_float (strip (slice 0 9 first_line)) = None
      \<longrightarrow> select_reader first_line = Inl (ValueError ''Cannot determine RINEX version from file''))"
  by (auto simp: select_reader_def)

theorem version_dispatch_witness:
  "py_float (strip (slice 0 9 ''     2.11           N: GPS NAV DATA'')) = Some (Fin (211 / 100)) \<and>
   (2 :: real) \<le> 211 / 100 \<and> (211 / 100 :: real) < 3 \<and>
   select_reader ''     2.11           N: GPS NAV DATA'' = Inr Rinex2NavReader \<and>
   py_float (strip (slice 0 9 ''     4.00           N: GNSS NAV DATA'')) = Some (Fin 4) \<and>
   (3 :: real) \<le> 4 \<and>
   select_reader ''     4.00           N: GNSS NAV DATA'' = Inr Rinex3NavReader \<and>
   py_float (strip (slice 0 9 ''RINEX 3.04          N: GNSS NAV DATA'')) = None \<and>
   select_reader ''RINEX 3.04          N: GNSS NAV DATA'' =
     Inl (ValueError ''Cannot determine RINEX version from file'')"
proof -
  have a: "py_float (strip (slice 0 9 ''     2.11           N: GPS NAV DATA'')) = Some (Fin (211 / 100))"
    by code_simp
  have b: "py_float (strip (slice 0 9 ''     4.00           N: GNSS NAV DATA'')) = Some (Fin 4)"
    by code_simp
  have c: "py_float (strip (slice 0 9 ''RINEX 3.04          N: GNSS NAV DATA'')) = None"
    by code_simp
  show ?thesis
    using a b c
      version_dispatch [of "''     2.11           N: GPS NAV DATA''" "211 / 100"]
      version_dispatch [of "''     4.00           N: GNSS NAV DATA''" 4]
      version_dispatch [of "''RINEX 3.04          N: GNSS NAV DATA''" 0]
    by simp
qed

lemma collection_append_record:
  "collection (append_record sys r store) sys' =
     (if sys' = sys then collection store sys @ [r] else collection store sys')"
  by (induction store) (auto simp: collection_def)

lemma v3_records_extends:
  "v3_records lines store = Inr store' \<Longrightarrow> \<exists>later. collection store' sys = collection store sys @ later"
proof (induction lines store rule: v3_records.induct)
  case (1 store)
  then show ?case by simp
next
  case (2 line rest store)
  show ?case
  proof (cases "strip line = []")
    case True
    with 2 show ?thesis by simp
  next
    case False
    with "2.prems" obtain s r where rec: "v3_record line rest = Inr (s, r)"
      and run: "v3_records (drop (num_lines s - 1) rest) (append_record s r store) = Inr store'"
      by (auto split: sum.splits)
    from "2.IH"(2) [OF False rec refl run]
    obtain later where "collection store' sys = collection (append_record s r store) sys @ later"
      by blast
    then show ?thesis
      by (auto simp: collection_append_record)
  qed
qed

lemma v3_record_block:
  assumes "v3_record line block = Inr (sys, r)" and "length block = num_lines sys - 1"
  shows "v3_record line (block @ rest) = Inr (sys, r)"
proof (cases "strip (slice 0 3 line)")
  case Nil
  with assms(1) show ?thesis by (simp add: v3_record_def)
next
  case (Cons c tl)
  obtain b d rr where clk: "v3_clock line = (b, d, rr)"
    by (cases "v3_clock line")
  from assms(1) have "c = sys"
    by (auto simp: v3_record_def Let_def Cons clk ebind_eq_Inr)
  with assms show ?thesis
    by (simp add: v3_record_def Let_def Cons)
qed

text \<open>
  C4 (amended). Neither parser sorts: a record is appended to its collection when its block
  is parsed, so each collection is in file order. For version 2, a complete eight-line
  block followed by further lines yields the block's record (if it parses) followed by the
  records of the further lines. For version 3/4, the record of a complete block comes after
  every record its collection held before and before every record parsed after it.
\<close>

theorem records_in_file_order:
  "(rstrip l \<noteq> [] \<and> length block = 7 \<longrightarrow>
      v2_records (l # block @ rest) = v2_records (l # block) @ v2_records rest) \<and>
   (strip line \<noteq> [] \<and> v3_record line block3 = Inr (sys, r) \<and> length block3 = num_lines sys - 1 \<and>
    v3_records (line # block3 @ rest3) store = Inr store' \<longrightarrow>
      (\<exists>later. collection store' sys = collection store sys @ r # later))"
proof (intro conjI impI)
  assume "rstrip l \<noteq> [] \<and> length block = 7"
  then show "v2_records (l # block @ rest) = v2_records (l # block) @ v2_records rest"
    by simp
next
  assume h: "strip line \<noteq> [] \<and> v3_record line block3 = Inr (sys, r) \<and>
    length block3 = num_lines sys - 1 \<and> v3_records (line # block3 @ rest3) store = Inr store'"
  then have rec: "v3_record line (block3 @ rest3) = Inr (sys, r)"
    by (simp add: v3_record_block)
  from h have dr: "drop (num_lines sys - 1) (block3 @ rest3) = rest3"
    by simp
  from h have ne: "strip line \<noteq> []"
    by simp
  have "v3_records (line # block3 @ rest3) store =
      v3_records (drop (num_lines sys - 1) (block3 @ rest3)) (append_record sys r store)"
    using ne rec by simp
  also have "\<dots> = v3_records rest3 (append_record sys r store)"
    by (simp only: dr)
  finally have eq: "v3_records (line # block3 @ rest3) store =
      v3_records rest3 (append_record sys r store)" .
  from h have full: "v3_records (line # block3 @ rest3) store = Inr store'"
    by blast
  from eq full have "v3_records rest3 (append_record sys r store) = Inr store'"
    by (simp only:)
  from v3_records_extends [OF this, of sys]
  show "\<exists>later. collection store' sys = collection store sys @ r # later"
    by (auto simp: collection_append_record)
qed

theorem records_in_file_order_witness:
  "rstrip ''12 02  1  1  2  0  0.0'' \<noteq> [] \<and> length (replicate 7 ([] :: string)) = 7 \<and>
   v2_records (''12 02  1  1  2  0  0.0'' # replicate 7 [] @ [''12 02  1  1  0  0  0.0'']) =
     v2_records (''12 02  1  1  2  0  0.0'' # replicate 7 []) @ v2_records [''12 02  1  1  0  0  0.0''] \<and>
   strip ''R05 2021 12 31 23 45 00'' \<noteq> [] \<and>
   v3_record ''R05 2021 12 31 23 45 00'' [[], [], []] =
     Inr (CHR ''R'', \<lparr>PRN = 5, Epoch = 63776591100000000, SV_clock_bias = Fin 0,
       SV_clock_drift = Fin 0, SV_clock_drift_rate = Fin 0,
       orbital = keyed (system_keys CHR ''R'') []\<rparr>) \<and>
   length [[], [], [] :: string] = num_lines CHR ''R'' - 1 \<and>
   v3_records (''R05 2021 12 31 23 45 00'' # [[], [], []] @ [''R05 2021 12 31 23 15 00'']) [] =
     Inr [(CHR ''R'',
       [\<lparr>PRN = 5, Epoch = 63776591100000000, SV_clock_bias = Fin 0,
         SV_clock_drift = Fin 0, SV_clock_drift_rate = Fin 0,
         orbital = keyed (system_keys CHR ''R'') []\<rparr>,
        \<lparr>PRN = 5, Epoch = 63776589300000000, SV_clock_bias = Fin 0,
         SV_clock_drift = Fin 0, SV_clock_drift_rate = Fin 0,
         orbital = keyed (system_keys CHR ''R'') []\<rparr>])]"
proof -
  have a: "rstrip ''12 02  1  1  2  0  0.0'' \<noteq> []"
    by code_simp
  have b: "strip ''R05 2021 12 31 23 45 00'' \<noteq> []"
    by code_simp
  have c: "v3_record ''R05 2021 12 31 23 45 00'' [[], [], []] =
     Inr (CHR ''R'', \<lparr>PRN = 5, Epoch = 63776591100000000, SV_clock_bias = Fin 0,
       SV_clock_drift = Fin 0, SV_clock_drift_rate = Fin 0,
       orbital = keyed (system_keys CHR ''R'') []\<rparr>)"
    by code_simp
  have d: "length [[], [], [] :: string] = num_lines CHR ''R'' - 1"
    by (simp add: num_lines_def)
  have e: "v3_records (''R05 2021 12 31 23 45 00'' # [[], [], []] @ [''R05 2021 12 31 23 15 00'']) [] =
     Inr [(CHR ''R'',
       [\<lparr>PRN = 5, Epoch = 63776591100000000, SV_clock_bias = Fin 0,
         SV_clock_drift = Fin 0, SV_clock_drift_rate = Fin 0,
         orbital = keyed (system_keys CHR ''R'') []\<rparr>,
        \<lparr>PRN = 5, Epoch = 63776589300000000, SV_clock_bias = Fin 0,
         SV_clock_drift = Fin 0, SV_clock_drift_rate = Fin 0,
         orbital = keyed (system_keys CHR ''R'') []\<rparr>])]"
    by code_simp
  show ?thesis
    using a b c d e
      records_in_file_order [of "''12 02  1  1  2  0  0.0''" "replicate 7 []"
        "[''12 02  1  1  0  0  0.0'']"]
    by simp
qed

text \<open>
  C4 as stated fails: two version 2 records, the one of 02:00 before the one of 00:00,
  are stored in that order.
\<close>

theorem v2_store_unsorted:
  "\<not> sorted (map Toc (v2_parse_data
      (''12 02  1  1  2  0  0.0'' @ replicate 8 (CHR 0x0A) @ ''12 02  1  1  0  0  0.0'')))"
  by code_simp

text \<open>
  C2. A malformed record must not abort the parse. The version 2 parser drops a record
  whose PRN is not a number; the version 3/4 parser converts the PRN and the epoch outside
  any \<^verbatim>\<open>try\<close> block, and the \<^verbatim>\<open>ValueError\<close> ends the parse of the whole file.
\<close>

theorem v3_malformed_record_aborts:
  "v3_parse_data ''G0X 2022 01 01 00 00 00'' =
     Inl (ValueError ''invalid literal for int() with base 10'') \<and>
   v2_parse_data ''0X 22  1  1  0  0  0.0'' = []"
  by code_simp

subsection \<open>Kepler's equation\<close>

lemma np_sin_error: "\<bar>np_sin x - sin x\<bar> \<le> 1 / 2 ^ 52"
proof -
  have "\<bar>rd (sin x) - sin x\<bar> \<le> \<bar>sin x\<bar> / 2 ^ 53 + 1 / 2 ^ 1075"
    by (rule rd_error_abs)
  moreover have "\<bar>sin x\<bar> / 2 ^ 53 \<le> 1 / 2 ^ 53"
    by (intro divide_right_mono) auto
  ultimately have "\<bar>rd (sin x) - sin x\<bar> \<le> 1 / 2 ^ 53 + 1 / 2 ^ 53"
    using tiny(1) by linarith
  then show ?thesis
    unfolding np_sin_def by simp
qed

lemma kepler_step:
  assumes sn: "\<And>x. \<bar>sn x - sin x\<bar> \<le> 1 / 2 ^ 52" and e: "0 \<le> e" "e \<le> 1"
  shows "\<bar>rd (M + rd (e * sn E)) - (M + e * sin E)\<bar> \<le> (\<bar>M\<bar> + 9) / 2 ^ 53"
proof -
  define a where "a = e * sn E"
  define s where "s = M + rd a"
  have sin1: "\<bar>sin E\<bar> \<le> 1"
    by simp
  have snE: "\<bar>sn E - sin E\<bar> \<le> 1 / 2 ^ 52"
    by (rule sn)
  have "\<bar>sn E\<bar> \<le> \<bar>sin E\<bar> + \<bar>sn E - sin E\<bar>"
    by linarith
  also have "\<dots> \<le> 1 + 1 / 2 ^ 52"
    using sin1 snE by (rule add_mono)
  also have "\<dots> \<le> 2"
    by simp
  finally have sn2: "\<bar>sn E\<bar> \<le> 2" .
  have "\<bar>a\<bar> = e * \<bar>sn E\<bar>"
    using e by (simp add: a_def abs_mult)
  also have "\<dots> \<le> 1 * 2"
    using e sn2 by (intro mult_mono) auto
  finally have a2: "\<bar>a\<bar> \<le> 2"
    by simp
  have "\<bar>rd a - a\<bar> \<le> \<bar>a\<bar> / 2 ^ 53 + 1 / 2 ^ 1075"
    by (rule rd_error_abs)
  moreover have "\<bar>a\<bar> / 2 ^ 53 \<le> 2 / 2 ^ 53"
    using a2 by (intro divide_right_mono) auto
  ultimately have ra: "\<bar>rd a - a\<bar> \<le> 3 / 2 ^ 53"
    using tiny(1) by linarith
  have "(3 :: real) / 2 ^ 53 \<le> 1"
    by simp
  with ra a2 have "\<bar>rd a\<bar> \<le> 3"
    by linarith
  then have s3: "\<bar>s\<bar> \<le> \<bar>M\<bar> + 3"
    unfolding s_def by linarith
  have "\<bar>rd s - s\<bar> \<le> \<bar>s\<bar> / 2 ^ 53 + 1 / 2 ^ 1075"
    by (rule rd_error_abs)
  moreover have "\<bar>s\<bar> / 2 ^ 53 \<le> (\<bar>M\<bar> + 3) / 2 ^ 53"
    using s3 by (intro divide_right_mono) auto
  ultimately have rs: "\<bar>rd s - s\<bar> \<le> (\<bar>M\<bar> + 3) / 2 ^ 53 + 1 / 2 ^ 53"
    using tiny(1) by linarith
  have "a - e * sin E = e * (sn E - sin E)"
    by (simp add: a_def algebra_simps)
  then have "\<bar>a - e * sin E\<bar> = e * \<bar>sn E - sin E\<bar>"
    using e by (simp add: abs_mult)
  also have "\<dots> \<le> 1 * (1 / 2 ^ 52)"
    using e snE by (intro mult_mono) auto
  finally have ae: "\<bar>a - e * sin E\<bar> \<le> 2 / 2 ^ 53"
    by simp
  have "rd s - (M + e * sin E) = (rd s - s) + (rd a - a) + (a - e * sin E)"
    by (simp add: s_def)
  then have "\<bar>rd s - (M + e * sin E)\<bar> \<le> \<bar>rd s - s\<bar> + \<bar>rd a - a\<bar> + \<bar>a - e * sin E\<bar>"
    by linarith
  also have "\<dots> \<le> ((\<bar>M\<bar> + 3) / 2 ^ 53 + 1 / 2 ^ 53) + 3 / 2 ^ 53 + 2 / 2 ^ 53"
    using rs ra ae by linarith
  also have "\<dots> = (\<bar>M\<bar> + 9) / 2 ^ 53"
    by (simp add: field_simps)
  finally show ?thesis
    unfolding s_def a_def .
qed

lemma break_small:
  assumes "\<bar>rd w\<bar> < rd (1 / 10 ^ 12)"
  shows "\<bar>w\<bar> < 3 / 10 ^ 12"
proof -
  have "\<bar>rd w - w\<bar> \<le> \<bar>w\<bar> / 2 ^ 53 + 1 / 2 ^ 1075"
    by (rule rd_error_abs)
  moreover have "\<bar>w\<bar> / 2 ^ 53 \<le> \<bar>w\<bar> / 4"
    by (intro divide_left_mono) auto
  ultimately show ?thesis
    using assms tolerance(2) tiny(2) by (simp add: abs_if split: if_splits)
qed

lemma no_break:
  assumes "3 / 10 ^ 12 \<le> w"
  shows "\<not> \<bar>rd w\<bar> < rd (1 / 10 ^ 12)"
proof -
  have "\<bar>rd w - w\<bar> \<le> \<bar>w\<bar> / 2 ^ 53 + 1 / 2 ^ 1075"
    by (rule rd_error_abs)
  moreover have "\<bar>w\<bar> / 2 ^ 53 \<le> \<bar>w\<bar> / 4"
    by (intro divide_left_mono) auto
  ultimately show ?thesis
    using assms tolerance(2) tiny(2) by (simp add: abs_if split: if_splits)
qed

lemma sin_lipschitz: "\<bar>sin a - sin b\<bar> \<le> \<bar>a - b\<bar>" for a b :: real
proof -
  have "sin a - sin b = 2 * sin ((a - b) / 2) * cos ((a + b) / 2)"
    by (rule sin_diff_sin)
  then have "\<bar>sin a - sin b\<bar> = 2 * \<bar>sin ((a - b) / 2)\<bar> * \<bar>cos ((a + b) / 2)\<bar>"
    by (simp add: abs_mult)
  also have "\<dots> \<le> 2 * \<bar>(a - b) / 2\<bar> * 1"
    by (intro mult_mono mult_nonneg_nonneg abs_sin_x_le_abs_x) auto
  finally show ?thesis by simp
qed

lemma kepler_iter_fast:
  assumes step: "\<And>E. \<bar>rd (M + rd (e * sn E)) - (M + e * sin E)\<bar> \<le> \<eta>"
    and e: "0 \<le> e" "e \<le> 1" and c: "e * c + 2 * \<eta> \<le> c"
    and "residual M e E \<le> c + D" "0 \<le> D"
  shows "residual M e (kepler_iter sn k M e E) < 3 / 10 ^ 12 + \<eta> \<or>
         residual M e (kepler_iter sn k M e E) \<le> c + e ^ k * D"
  using assms(5,6)
proof (induction k arbitrary: E D)
  case 0
  then show ?case by simp
next
  case (Suc k)
  let ?N = "rd (M + rd (e * sn E))"
  let ?T = "M + e * sin E"
  have NT: "\<bar>?N - ?T\<bar> \<le> \<eta>"
    by (rule step)
  have res: "residual M e E = \<bar>?T - E\<bar>"
    by (simp add: residual_def algebra_simps)
  show ?case
  proof (cases "\<bar>rd (?N - E)\<bar> < rd (1 / 10 ^ 12)")
    case True
    then have "kepler_iter sn (Suc k) M e E = E"
      by (simp add: Let_def)
    moreover have "\<bar>?N - E\<bar> < 3 / 10 ^ 12"
      using True by (rule break_small)
    then have "residual M e E < 3 / 10 ^ 12 + \<eta>"
      unfolding res using NT by linarith
    ultimately show ?thesis
      by simp
  next
    case False
    then have stepk: "kepler_iter sn (Suc k) M e E = kepler_iter sn k M e ?N"
      by (simp add: Let_def)
    have "\<bar>sin ?N - sin E\<bar> \<le> \<bar>?N - E\<bar>"
      by (rule sin_lipschitz)
    also have "\<dots> \<le> residual M e E + \<eta>"
      unfolding res using NT by linarith
    finally have "e * \<bar>sin ?N - sin E\<bar> \<le> e * (residual M e E + \<eta>)"
      using e(1) by (rule mult_left_mono)
    moreover have "e * \<eta> \<le> 1 * \<eta>"
    proof -
      have "0 \<le> \<eta>"
        using NT by linarith
      with e(2) show ?thesis
        by (rule mult_right_mono)
    qed
    moreover have "e * (residual M e E) \<le> e * (c + D)"
      using Suc.prems(1) e(1) by (rule mult_left_mono)
    moreover have "residual M e ?N = \<bar>e * (sin ?N - sin E) + (?T - ?N)\<bar>"
      by (simp add: residual_def algebra_simps)
    moreover have "\<bar>e * (sin ?N - sin E)\<bar> = e * \<bar>sin ?N - sin E\<bar>"
      using e(1) by (simp add: abs_mult)
    ultimately have "residual M e ?N \<le> e * (c + D) + 2 * \<eta>"
      using NT by (simp add: algebra_simps)
    then have r: "residual M e ?N \<le> c + e * D"
      using c by (simp add: algebra_simps)
    have "0 \<le> e * D"
      using e(1) Suc.prems(2) by simp
    from Suc.IH [OF r this] show ?thesis
      unfolding stepk by (simp add: ac_simps)
  qed
qed

text \<open>
  C3 (amended). In doubles, for every eccentricity from 0 to 0.1 (so for the doubles nearest
  to 0 and 0.05), every mean anomaly \<open>M\<close> with \<open>|M| \<le> 10 ^ 6\<close> and every sine within \<open>2 ^ -52\<close>
  of the exact one, the loop of at most ten iterations ends with an \<open>E\<close> whose residual
  \<open>|M - (E - e sin E)|\<close> is below 1e-9.
\<close>

theorem kepler_converges_small_e:
  assumes "\<And>x. \<bar>sn x - sin x\<bar> \<le> 1 / 2 ^ 52" "0 \<le> e" "e \<le> 1 / 10" "\<bar>M\<bar> \<le> 10 ^ 6"
  shows "\<bar>M - (kepler sn M e - e * sin (kepler sn M e))\<bar> < 1 / 10 ^ 9"
proof -
  define \<eta> where "\<eta> = (\<bar>M\<bar> + 9) / 2 ^ 53"
  have e1: "e \<le> 1"
    using assms(3) by simp
  have step: "\<bar>rd (M + rd (e * sn E)) - (M + e * sin E)\<bar> \<le> \<eta>" for E
    unfolding \<eta>_def using assms(1,2) e1 by (rule kepler_step)
  have "\<eta> \<le> (10 ^ 6 + 9) / 2 ^ 53"
    unfolding \<eta>_def using assms(4) by (intro divide_right_mono) auto
  also have "\<dots> \<le> 112 / 10 ^ 12"
    by simp
  finally have eta: "\<eta> \<le> 112 / 10 ^ 12" .
  have "e * (25 / 10 ^ 11) \<le> 1 / 10 * (25 / 10 ^ 11)"
    using assms(3) by (intro mult_right_mono) auto
  with eta have c: "e * (25 / 10 ^ 11) + 2 * \<eta> \<le> 25 / 10 ^ 11"
    by simp
  have "residual M e M = e * \<bar>sin M\<bar>"
    using assms(2) by (simp add: residual_def abs_mult)
  also have "\<dots> \<le> e * 1"
    using assms(2) by (intro mult_left_mono) auto
  finally have r0: "residual M e M \<le> 25 / 10 ^ 11 + e"
    by simp
  from kepler_iter_fast [of M e sn \<eta> "25 / 10 ^ 11" M e 10, OF step assms(2) e1 c r0 assms(2)]
  have "residual M e (kepler sn M e) < 3 / 10 ^ 12 + \<eta> \<or>
      residual M e (kepler sn M e) \<le> 25 / 10 ^ 11 + e ^ 10 * e"
    by (simp add: kepler_def)
  moreover have "e ^ 10 * e \<le> 1 / 10 ^ 11"
  proof -
    have "e ^ 10 * e = e ^ 11"
      by (simp add: numeral_eq_Suc)
    also have "\<dots> \<le> (1 / 10) ^ 11"
      using assms(2,3) by (intro power_mono) auto
    also have "\<dots> = 1 / 10 ^ 11"
      by (simp add: power_divide)
    finally show ?thesis .
  qed
  ultimately have "residual M e (kepler sn M e) < 1 / 10 ^ 9"
    using eta by auto
  then show ?thesis
    by (simp add: residual_def)
qed


theorem kepler_converges_small_e_witness:
  "(\<forall>x. \<bar>np_sin x - sin x\<bar> \<le> 1 / 2 ^ 52) \<and> 0 \<le> rd (5 / 100) \<and> rd (5 / 100) \<le> 1 / 10 \<and>
   \<bar>1 :: real\<bar> \<le> 10 ^ 6 \<and>
   \<bar>1 - (kepler np_sin 1 (rd (5 / 100)) - rd (5 / 100) * sin (kepler np_sin 1 (rd (5 / 100))))\<bar>
     < 1 / 10 ^ 9"
proof -
  have e: "0 \<le> rd (5 / 100)" "rd (5 / 100) \<le> 1 / 10"
    using rd_near [of "5 / 100"] by (simp_all add: abs_if split: if_splits)
  have r: "\<bar>1 - (kepler np_sin 1 (rd (5 / 100)) - rd (5 / 100) * sin (kepler np_sin 1 (rd (5 / 100))))\<bar>
      < 1 / 10 ^ 9"
    by (rule kepler_converges_small_e [OF np_sin_error e]) simp
  have m: "\<bar>1 :: real\<bar> \<le> 10 ^ 6"
    by simp
  from np_sin_error e m r show ?thesis
    by blast
qed

lemma cos_lower: "1 - x\<^sup>2 / 2 \<le> cos x" for x :: real
proof -
  have "cos x = 1 - 2 * (sin (x / 2))\<^sup>2"
    using cos_double_sin [of "x / 2"] by simp
  moreover have "(sin (x / 2))\<^sup>2 \<le> (x / 2)\<^sup>2"
    using abs_sin_x_le_abs_x [of "x / 2"] by (simp add: abs_le_square_iff [symmetric])
  ultimately show ?thesis
    by (simp add: power2_eq_square)
qed

lemma sin_increase:
  fixes a b B :: real
  assumes "0 \<le> a" "a \<le> b" "b \<le> B" "B \<le> 2"
  shows "(1 - B\<^sup>2 / 2) * (b - a) \<le> sin b - sin a"
proof (cases "a = b")
  case True
  then show ?thesis by simp
next
  case False
  with assms have "a < b" by simp
  then obtain z where z: "a < z" "z < b" "sin b - sin a = (b - a) * cos z"
    using MVT2 [of a b sin cos] by (auto intro: DERIV_sin)
  have "cos B \<le> cos z"
    using z assms pi_ge_two by (intro cos_monotone_0_pi_le) auto
  with cos_lower [of B] have "1 - B\<^sup>2 / 2 \<le> cos z" by simp
  with \<open>a < b\<close> have "(b - a) * (1 - B\<^sup>2 / 2) \<le> (b - a) * cos z"
    by (intro mult_left_mono) auto
  with z show ?thesis by (simp add: mult.commute)
qed

lemma sin_lower: "0 \<le> x \<Longrightarrow> x \<le> 2 \<Longrightarrow> (1 - x\<^sup>2 / 2) * x \<le> sin x" for x :: real
  using sin_increase [of 0 x x] by simp

lemma kepler_iter_slow:
  assumes step: "\<And>E. \<bar>rd (M + rd (e * sn E)) - (M + e * sin E)\<bar> \<le> \<eta>"
    and e: "0 \<le> e" "e \<le> 1" and B: "B \<le> 2" "M + e * B + \<eta> \<le> B"
    and c: "0 \<le> c" "c \<le> 1" "c + \<eta> * 10 ^ 12 \<le> e * (1 - B\<^sup>2 / 2)"
    and "0 \<le> E" "E \<le> B" "\<delta> \<le> M + e * sin E - E" "4 / 10 ^ 12 \<le> c ^ k * \<delta>"
  shows "c ^ k * \<delta> \<le> M + e * sin (kepler_iter sn k M e E) - kepler_iter sn k M e E"
  using assms(9-12)
proof (induction k arbitrary: E \<delta>)
  case 0
  then show ?case by simp
next
  case (Suc k)
  let ?N = "rd (M + rd (e * sn E))"
  let ?T = "M + e * sin E"
  define w where "w = ?N - E"
  define g where "g = e * (1 - B\<^sup>2 / 2)"
  have NT: "\<bar>?N - ?T\<bar> \<le> \<eta>"
    by (rule step)
  have eta0: "0 \<le> \<eta>"
    using NT by linarith
  have g1: "g \<le> 1"
  proof -
    have "g \<le> e * 1"
      unfolding g_def using e(1) by (intro mult_left_mono) auto
    with e(2) show ?thesis by simp
  qed
  have cg: "c + \<eta> * 10 ^ 12 \<le> g"
    using c(3) by (simp add: g_def)
  have eta12: "\<eta> * 10 ^ 12 \<le> 1"
    using cg g1 c(1) by linarith
  then have eta_small: "\<eta> \<le> 1 / 10 ^ 12"
    by (simp add: field_simps)
  have pow0: "0 \<le> c ^ Suc k"
    using c(1) by (rule zero_le_power)
  have pow1: "c ^ Suc k \<le> 1"
    using c(1,2) by (rule power_le_one)
  have dpos: "0 < \<delta>"
  proof (rule ccontr)
    assume "\<not> 0 < \<delta>"
    then have "c ^ Suc k * \<delta> \<le> 0"
      using pow0 by (simp add: mult_nonneg_nonpos)
    with Suc.prems(4) show False by simp
  qed
  have "c ^ Suc k * \<delta> \<le> 1 * \<delta>"
    using pow1 dpos by (intro mult_right_mono) auto
  with Suc.prems(4) have big: "4 / 10 ^ 12 \<le> \<delta>"
    by simp
  have wlo: "\<delta> - \<eta> \<le> w"
    unfolding w_def using NT Suc.prems(3) by linarith
  have w3: "3 / 10 ^ 12 \<le> w"
    using wlo big eta_small by (simp add: abs_if split: if_splits)
  then have nobreak: "\<not> \<bar>rd (?N - E)\<bar> < rd (1 / 10 ^ 12)"
    unfolding w_def by (rule no_break)
  have stepk: "kepler_iter sn (Suc k) M e E = kepler_iter sn k M e ?N"
    using nobreak by (simp add: Let_def)
  have w0: "0 \<le> w"
    using w3 by (simp add: abs_if split: if_splits)
  have EN: "E \<le> ?N"
    using w0 by (simp add: w_def)
  have N0: "0 \<le> ?N"
    using EN Suc.prems(1) by simp
  have "sin E \<le> E"
    using Suc.prems(1) by (rule sin_x_le_x)
  then have "e * sin E \<le> e * B"
    using e(1) Suc.prems(2) by (intro mult_left_mono) auto
  with B(2) NT have NB: "?N \<le> B"
    by linarith
  have inc: "(1 - B\<^sup>2 / 2) * w \<le> sin ?N - sin E"
    unfolding w_def using Suc.prems(1) EN NB B(1) by (rule sin_increase)
  have a1: "(c + \<eta> * 10 ^ 12) * w \<le> g * w"
    using cg w0 by (rule mult_right_mono)
  have c2: "0 \<le> c + \<eta> * 10 ^ 12"
    using c(1) eta0 by simp
  have a2: "(c + \<eta> * 10 ^ 12) * (\<delta> - \<eta>) \<le> (c + \<eta> * 10 ^ 12) * w"
    using wlo c2 by (rule mult_left_mono)
  define P where "P = \<eta> * (10 ^ 12 * \<delta>)"
  define Q where "Q = c * \<eta>"
  define R where "R = \<eta> * (\<eta> * 10 ^ 12)"
  have "\<eta> * 4 \<le> \<eta> * (10 ^ 12 * \<delta>)"
    using eta0 big by (intro mult_left_mono) (simp_all add: field_simps)
  then have a3: "4 * \<eta> \<le> P"
    by (simp add: P_def)
  have "c * \<eta> \<le> 1 * \<eta>"
    using c(2) eta0 by (rule mult_right_mono)
  then have a4: "Q \<le> \<eta>"
    by (simp add: Q_def)
  have "\<eta> * (\<eta> * 10 ^ 12) \<le> \<eta> * 1"
    using eta12 eta0 by (rule mult_left_mono)
  then have a5: "R \<le> \<eta>"
    by (simp add: R_def)
  have "(c + \<eta> * 10 ^ 12) * (\<delta> - \<eta>) = c * \<delta> - Q + P - R"
    by (simp add: P_def Q_def R_def algebra_simps)
  with a3 a4 a5 eta0 have "c * \<delta> + \<eta> \<le> (c + \<eta> * 10 ^ 12) * (\<delta> - \<eta>)"
    by linarith
  with a1 a2 have a6: "c * \<delta> + \<eta> \<le> g * w"
    by linarith
  have "g * w = e * ((1 - B\<^sup>2 / 2) * w)"
    by (simp add: g_def)
  also have "\<dots> \<le> e * (sin ?N - sin E)"
    using inc e(1) by (rule mult_left_mono)
  finally have a7: "g * w \<le> e * (sin ?N - sin E)" .
  have "M + e * sin ?N - ?N = e * (sin ?N - sin E) + (?T - ?N)"
    by (simp add: algebra_simps)
  with a6 a7 NT have d: "c * \<delta> \<le> M + e * sin ?N - ?N"
    by linarith
  have eq: "c ^ k * (c * \<delta>) = c ^ Suc k * \<delta>"
    by (simp add: ac_simps)
  have "4 / 10 ^ 12 \<le> c ^ k * (c * \<delta>)"
    using Suc.prems(4) unfolding eq .
  from Suc.IH [OF N0 NB d this] show ?case
    unfolding stepk eq .
qed


lemma kepler_slow:
  assumes e: "\<bar>e - e0\<bar> \<le> 1 / 10 ^ 15" "1 / 10 \<le> e0" "e0 \<le> 9 / 10"
    and M: "0 \<le> M" "M \<le> 1 / 4" "M \<le> B" "B \<le> 2"
    and B: "M + (e0 + 1 / 10 ^ 15) * B + 2 / 10 ^ 15 \<le> B"
    and c: "0 \<le> c" "c \<le> 1" "c + 2 / 10 ^ 3 \<le> (e0 - 1 / 10 ^ 15) * (1 - B\<^sup>2 / 2)"
    and d: "\<delta> \<le> (e0 - 1 / 10 ^ 15) * ((1 - M\<^sup>2 / 2) * M)" "1 / 10 ^ 9 \<le> c ^ 10 * \<delta>"
  shows "1 / 10 ^ 9 \<le> residual M e (kepler np_sin M e)"
proof -
  define \<eta> :: real where "\<eta> = 2 / 10 ^ 15"
  have elo: "e0 - 1 / 10 ^ 15 \<le> e" and ehi: "e \<le> e0 + 1 / 10 ^ 15"
    using e(1) by (simp_all add: abs_if split: if_splits)
  have e0: "0 \<le> e" and e1: "e \<le> 1"
    using elo ehi e(2,3) by (simp_all add: abs_if split: if_splits)
  have B0: "0 \<le> B"
    using M(1,3) by simp
  have step: "\<bar>rd (M + rd (e * np_sin E)) - (M + e * sin E)\<bar> \<le> \<eta>" for E
  proof -
    have "\<bar>rd (M + rd (e * np_sin E)) - (M + e * sin E)\<bar> \<le> (\<bar>M\<bar> + 9) / 2 ^ 53"
      using np_sin_error e0 e1 by (rule kepler_step)
    also have "\<dots> \<le> (1 / 4 + 9) / 2 ^ 53"
      using M(1,2) by (intro divide_right_mono) auto
    also have "\<dots> \<le> \<eta>"
      by (simp add: \<eta>_def)
    finally show ?thesis .
  qed
  have "e * B \<le> (e0 + 1 / 10 ^ 15) * B"
    using ehi B0 by (rule mult_right_mono)
  with B have B': "M + e * B + \<eta> \<le> B"
    by (simp add: \<eta>_def)
  have "0 \<le> 1 - B\<^sup>2 / 2"
  proof (rule ccontr)
    assume "\<not> 0 \<le> 1 - B\<^sup>2 / 2"
    moreover have "0 \<le> e0 - 1 / 10 ^ 15"
      using e(2) by simp
    ultimately have "(e0 - 1 / 10 ^ 15) * (1 - B\<^sup>2 / 2) \<le> 0"
      by (intro mult_nonneg_nonpos) auto
    moreover have "(0 :: real) < 2 / 10 ^ 3"
      by simp
    ultimately show False
      using c(1,3) by linarith
  qed
  then have "(e0 - 1 / 10 ^ 15) * (1 - B\<^sup>2 / 2) \<le> e * (1 - B\<^sup>2 / 2)"
    using elo by (intro mult_right_mono)
  with c(3) have c': "c + \<eta> * 10 ^ 12 \<le> e * (1 - B\<^sup>2 / 2)"
    by (simp add: \<eta>_def)
  have M2: "M \<le> 2"
    using M(2) by simp
  have sM: "(1 - M\<^sup>2 / 2) * M \<le> sin M"
    using M(1) M2 by (rule sin_lower)
  have p0: "0 \<le> (1 - M\<^sup>2 / 2) * M"
  proof -
    have "M\<^sup>2 \<le> (1 / 4)\<^sup>2"
      using M(1,2) by (intro power_mono) auto
    then have "0 \<le> 1 - M\<^sup>2 / 2"
      by (simp add: power2_eq_square)
    with M(1) show ?thesis
      by simp
  qed
  have "(e0 - 1 / 10 ^ 15) * ((1 - M\<^sup>2 / 2) * M) \<le> e * ((1 - M\<^sup>2 / 2) * M)"
    using elo p0 by (rule mult_right_mono)
  also have "\<dots> \<le> e * sin M"
    using sM e0 by (rule mult_left_mono)
  finally have d': "\<delta> \<le> M + e * sin M - M"
    using d(1) by simp
  have d4: "4 / 10 ^ 12 \<le> c ^ 10 * \<delta>"
    using d(2) by simp
  have "c ^ 10 * \<delta> \<le> M + e * sin (kepler_iter np_sin 10 M e M) - kepler_iter np_sin 10 M e M"
    using step e0 e1 M(4) B' c(1,2) c' M(1,3) d' d4 by (rule kepler_iter_slow)
  with d(2) show ?thesis
    by (simp add: residual_def kepler_def abs_if split: if_splits)
qed

text \<open>
  C3 as stated fails for the eccentricities 0.2, 0.6 and 0.9 (the doubles nearest to them):
  ten iterations leave a residual of at least 1e-9 at \<open>M = 0.25\<close>, \<open>M = 0.25\<close> and
  \<open>M = 0.0625\<close>.
\<close>

theorem kepler_slow_convergence:
  "1 / 10 ^ 9 \<le> residual (1 / 4) (rd (2 / 10)) (kepler np_sin (1 / 4) (rd (2 / 10))) \<and>
   1 / 10 ^ 9 \<le> residual (1 / 4) (rd (6 / 10)) (kepler np_sin (1 / 4) (rd (6 / 10))) \<and>
   1 / 10 ^ 9 \<le> residual (1 / 16) (rd (9 / 10)) (kepler np_sin (1 / 16) (rd (9 / 10)))"
proof (intro conjI)
  have "\<bar>rd (2 / 10) - 2 / 10\<bar> \<le> 1 / 10 ^ 15"
    by (rule rd_near) simp_all
  then show "1 / 10 ^ 9 \<le> residual (1 / 4) (rd (2 / 10)) (kepler np_sin (1 / 4) (rd (2 / 10)))"
    by (rule kepler_slow [where B = "32 / 100" and c = "187 / 1000" and \<delta> = "484 / 10000"])
      (simp_all add: power2_eq_square power_divide)
  have "\<bar>rd (6 / 10) - 6 / 10\<bar> \<le> 1 / 10 ^ 15"
    by (rule rd_near) simp_all
  then show "1 / 10 ^ 9 \<le> residual (1 / 4) (rd (6 / 10)) (kepler np_sin (1 / 4) (rd (6 / 10)))"
    by (rule kepler_slow [where B = "3 / 4" and c = "429 / 1000" and \<delta> = "145 / 1000"])
      (simp_all add: power2_eq_square power_divide)
  have "\<bar>rd (9 / 10) - 9 / 10\<bar> \<le> 1 / 10 ^ 15"
    by (rule rd_near) simp_all
  then show "1 / 10 ^ 9 \<le> residual (1 / 16) (rd (9 / 10)) (kepler np_sin (1 / 16) (rd (9 / 10)))"
    by (rule kepler_slow [where B = "3 / 4" and c = "644 / 1000" and \<delta> = "56 / 1000"])
      (simp_all add: power2_eq_square power_divide)
qed

subsection \<open>Errors of the orbit propagator\<close>

lemma unsupported_system:
  "sat_system \<noteq> ''G'' \<Longrightarrow> sat_system \<noteq> ''J'' \<Longrightarrow>
     interpolate_orbit now nav_data time sat_system prn =
       Inl (ValueError ''Interpolation for {sat_system} not supported yet.'')"
  by (simp add: interpolate_orbit_def)

lemma check_required_missing:
  "param \<in> set params \<Longrightarrow> missing row param \<Longrightarrow>
     \<exists>q \<in> set params. check_required params row =
       Inl (ValueError (''Missing or NaN value for '' @ q @ '' in navigation data''))"
  by (induction params) auto

lemma missing_required_param:
  assumes "sat_system = ''G'' \<or> sat_system = ''J''"
    and "select_row nav_data time prn = Inr row"
    and "param \<in> set required_params" and "missing (cells row) param"
  shows "\<exists>q \<in> set required_params. interpolate_orbit now nav_data time sat_system prn =
           Inl (ValueError (''Missing or NaN value for '' @ q @ '' in navigation data''))"
proof -
  from check_required_missing [OF assms(3,4)]
  obtain q where "q \<in> set required_params"
    and "check_required required_params (cells row) =
           Inl (ValueError (''Missing or NaN value for '' @ q @ '' in navigation data''))"
    by blast
  with assms(1,2) show ?thesis
    by (auto simp: interpolate_orbit_def)
qed

text \<open>
  C6. The propagator rejects every system but G and J, and reports each of the fifteen
  checked parameters that is missing (the two lemmas above). \<^verbatim>\<open>Toe\<close> is not among the
  checked parameters: a record whose \<^verbatim>\<open>Toe\<close> is NaN passes the check, and the call fails
  later, in the conversion of \<^verbatim>\<open>Toe\<close> to a date, with another error.
\<close>

theorem toe_not_checked:
  "check_required required_params (cells toe_nan_row) = Inr () \<and>
   interpolate_orbit now [toe_nan_row] 63776592000000000 ''G'' 1 =
     Inl (ValueError ''cannot convert float NaN to integer'')"
proof -
  have sel: "select_row [toe_nan_row] 63776592000000000 1 = Inr toe_nan_row"
    by (simp add: select_row_def toe_nan_row_def)
  have chk: "check_required required_params (cells toe_nan_row) = Inr ()"
    by (simp add: required_params_def toe_nan_row_def missing_def isnan_def)
  have toe: "cells toe_nan_row ''Toe'' = Some NaN"
    by (simp add: toe_nan_row_def)
  have wk: "find_week week_columns (cells toe_nan_row) = Inr (Some 2190)"
    by (simp add: week_columns_def toe_nan_row_def missing_def isnan_def int_of_float_def trunc_def)
  have "toe_datetime now (cells toe_nan_row) NaN = Inl (ValueError ''cannot convert float NaN to integer'')"
    by (simp add: toe_datetime_def wk gps_time_to_datetime_def timedelta_def)
  then show ?thesis
    by (simp add: interpolate_orbit_def sel chk toe)
qed

subsection \<open>Dependence on the wall clock\<close>

lemma toe_datetime_now:
  assumes "fst (datetime_to_gps_time now1) = fst (datetime_to_gps_time now2) \<or>
           find_week week_columns row \<noteq> Inr None"
  shows "toe_datetime now1 row toe = toe_datetime now2 row toe"
proof (cases "find_week week_columns row")
  case (Inl e)
  then show ?thesis by (simp add: toe_datetime_def)
next
  case (Inr found)
  with assms show ?thesis
    by (cases found) (auto simp: toe_datetime_def)
qed

text \<open>
  C1 (amended). The orbit propagation and the clock correction are functions of the store,
  the query time, the identifiers and the GPS week of the wall clock: two calls with the
  same arguments return the same result whenever they are made in the same GPS week, or
  the selected record has a populated week column (then the wall clock is not used).
\<close>

theorem queries_depend_on_current_week_only:
  assumes "fst (datetime_to_gps_time now1) = fst (datetime_to_gps_time now2) \<or>
           (\<forall>row. select_row nav_data time prn = Inr row \<longrightarrow>
              find_week week_columns (cells row) \<noteq> Inr None)"
  shows "interpolate_orbit now1 nav_data time sat_system prn =
           interpolate_orbit now2 nav_data time sat_system prn \<and>
         compute_sv_clock_correction now1 nav_data time sat_system prn =
           compute_sv_clock_correction now2 nav_data time sat_system prn"
proof (cases "select_row nav_data time prn")
  case (Inl e)
  then show ?thesis
    by (simp add: interpolate_orbit_def compute_sv_clock_correction_def)
next
  case (Inr row)
  with assms have td: "toe_datetime now1 (cells row) toe = toe_datetime now2 (cells row) toe" for toe
    by (intro toe_datetime_now) auto
  show ?thesis
    unfolding interpolate_orbit_def compute_sv_clock_correction_def Inr ebind.simps Let_def td
    by simp
qed


lemma gps_epoch_value: "gps_epoch = 62451561600000000"
  by (simp add: gps_epoch_def ymd2ord_def days_before_year_def days_before_month_def)

lemma max_datetime_value: "max_datetime = 315537897599999999"
  by code_simp

lemma kepler_circular: "kepler sn M 0 = M \<or> kepler sn M 0 = rd M"
proof -
  have step: "kepler_iter sn (Suc k) M 0 E =
      (if \<bar>rd (rd M - E)\<bar> < rd (1 / 10 ^ 12) then E else kepler_iter sn k M 0 (rd M))" for k E
    by (simp add: rd_zero Let_def)
  have "kepler sn M 0 = kepler_iter sn (Suc (Suc 8)) M 0 M"
    by (simp add: kepler_def)
  also have "\<dots> = (if \<bar>rd (rd M - M)\<bar> < rd (1 / 10 ^ 12) then M else rd M)"
    unfolding step using tolerance(1) by (simp add: rd_zero)
  finally show ?thesis
    by auto
qed

lemma arctan2_sin_cos:
  assumes "- (pi / 2) < m" "m < pi / 2"
  shows "arctan2 (sin m) (cos m) = m"
proof -
  have "0 < cos m" using assms by (rule cos_gt_zero_pi)
  then have "arctan2 (sin m) (cos m) = arctan (tan m)"
    by (simp add: arctan2_def tan_def)
  then show ?thesis using assms by (simp add: arctan_tan)
qed

lemma no_week_orbit:
  "interpolate_orbit now [no_week_row] 63776073600000000 ''G'' 1 =
     ebind (gps_time_to_datetime (fst (datetime_to_gps_time now)) (Fin 0)) (\<lambda>toe_dt.
       Inr (Value (orbit_state (number (cells no_week_row))
                     (total_seconds 63776073600000000 toe_dt) 0)))"
proof -
  have sel: "select_row [no_week_row] 63776073600000000 1 = Inr no_week_row"
    by (simp add: select_row_def no_week_row_def)
  have chk: "check_required required_params (cells no_week_row) = Inr ()"
    by (simp add: required_params_def no_week_row_def missing_def isnan_def)
  have toe: "cells no_week_row ''Toe'' = Some (Fin 0)"
    by (simp add: no_week_row_def)
  have wk: "find_week week_columns (cells no_week_row) = Inr None"
    by (simp add: week_columns_def no_week_row_def missing_def)
  have fin: "all_finite required_params (cells no_week_row)"
    by (simp add: all_finite_def required_params_def no_week_row_def is_fin_def)
  have def: "orbit_defined (number (cells no_week_row)) dt" for dt
    by (simp add: orbit_defined_def number_def the_real_def no_week_row_def)
  show ?thesis
    by (simp add: interpolate_orbit_def sel chk toe toe_datetime_def wk fin def the_real_def)
qed


lemma total_seconds_int:
  "\<bar>k\<bar> < 2 ^ 53 \<Longrightarrow> total_seconds (b + k * 1000000) b = real_of_int k"
  by (simp add: total_seconds_def rd_int)

lemma week_of_now:
  "fst (datetime_to_gps_time 63776073600000000) = 2190"
  "fst (datetime_to_gps_time 63776678400000000) = 2191"
proof -
  have a: "total_seconds 63776073600000000 gps_epoch = 1324512000"
    using total_seconds_int [of 1324512000 gps_epoch] by (simp add: gps_epoch_value)
  have b: "total_seconds 63776678400000000 gps_epoch = 1325116800"
    using total_seconds_int [of 1325116800 gps_epoch] by (simp add: gps_epoch_value)
  have c: "rd 2190 = 2190" "rd 2191 = 2191"
    using rd_int [of 2190] rd_int [of 2191] by simp_all
  show "fst (datetime_to_gps_time 63776073600000000) = 2190"
    by (simp add: datetime_to_gps_time_def a c trunc_def)
  show "fst (datetime_to_gps_time 63776678400000000) = 2191"
    by (simp add: datetime_to_gps_time_def b c trunc_def)
qed

lemma toe_of_week:
  "gps_time_to_datetime 2190 (Fin 0) = Inr 63776073600000000"
  "gps_time_to_datetime 2191 (Fin 0) = Inr 63776678400000000"
  by (simp_all add: gps_time_to_datetime_def timedelta_def seconds_to_us_def trunc_def
        datetime_add_def gps_epoch_value max_datetime_value)

lemma no_week_dt:
  "total_seconds 63776073600000000 63776073600000000 = 0"
  "total_seconds 63776073600000000 63776678400000000 = - 604800"
  using total_seconds_int [of 0 63776073600000000]
    total_seconds_int [of "- 604800" 63776678400000000]
  by simp_all

lemma no_week_Z:
  "Z (orbit_state (number (cells no_week_row)) dt 0) =
     10 ^ 10
       * sin (arctan2 (sin (kepler np_sin (sqrt (mu / 10 ^ 30) * dt) 0))
                (cos (kepler np_sin (sqrt (mu / 10 ^ 30) * dt) 0)))
       * sin (dt / 10 ^ 6)"
  by (simp add: orbit_state_def Let_def number_def the_real_def no_week_row_def)

lemma mean_motion_bounds: "1 / 10 ^ 8 < sqrt (mu / 10 ^ 30)" "sqrt (mu / 10 ^ 30) < 1 / 10 ^ 7"
proof -
  have "sqrt ((1 / 10 ^ 8)\<^sup>2) < sqrt (mu / 10 ^ 30)"
    by (subst real_sqrt_less_iff) (simp add: mu_def power2_eq_square)
  then show "1 / 10 ^ 8 < sqrt (mu / 10 ^ 30)"
    by simp
  have "sqrt (mu / 10 ^ 30) < sqrt ((1 / 10 ^ 7)\<^sup>2)"
    by (subst real_sqrt_less_iff) (simp add: mu_def power2_eq_square)
  then show "sqrt (mu / 10 ^ 30) < 1 / 10 ^ 7"
    by simp
qed

lemma no_week_Z_later: "0 < Z (orbit_state (number (cells no_week_row)) (- 604800) 0)"
proof -
  define m where "m = sqrt (mu / 10 ^ 30) * 604800"
  define K where "K = kepler np_sin (sqrt (mu / 10 ^ 30) * (- 604800)) 0"
  have m: "1 / 1000 < m" "m < 1 / 10"
    using mean_motion_bounds by (simp_all add: m_def)
  have "1 / 100 \<le> 10 * m" "10 * m \<le> 1"
    using m by simp_all
  have "2 powr (- 1022) \<le> (2 :: real) powr (- 10)"
    by (intro powr_mono) auto
  also have "\<dots> \<le> 1 / 1000"
    by (simp add: powr_neg_numeral)
  also have "\<dots> \<le> m"
    using m(1) by simp
  finally have "\<bar>rd m - m\<bar> \<le> m / 2 ^ 53"
    by (rule rd_error)
  moreover have "m / 2 ^ 53 \<le> m / 2"
    using m(1) by (intro divide_left_mono) auto
  ultimately have rm: "0 < rd m" "rd m < 1"
    using m by (simp_all add: abs_if split: if_splits)
  have "K = - m \<or> K = rd (- m)"
    unfolding K_def using kepler_circular [of np_sin "- m"] by (simp add: m_def)
  then have "K = - m \<or> K = - rd m"
    by (simp add: rd_minus)
  with m rm have K: "- 1 < K" "K < 0"
    by auto
  have half: "1 \<le> pi / 2"
    using pi_ge_two by simp
  have at: "arctan2 (sin K) (cos K) = K"
    using K half by (intro arctan2_sin_cos) auto
  have "0 < sin (- K)"
    using K half pi_gt_zero by (intro sin_gt_zero) auto
  then have sK: "sin K < 0"
    by simp
  have "0 < sin (604800 / 10 ^ 6 :: real)"
    using half pi_gt_zero by (intro sin_gt_zero) auto
  then have si: "sin (- 604800 / 10 ^ 6 :: real) < 0"
    using sin_minus [of "604800 / 10 ^ 6 :: real"] by simp
  have "Z (orbit_state (number (cells no_week_row)) (- 604800) 0) =
      10 ^ 10 * sin K * sin (- 604800 / 10 ^ 6)"
    unfolding no_week_Z K_def [symmetric] by (simp only: at)
  moreover have "0 < sin K * sin (- 604800 / 10 ^ 6 :: real)"
    using sK si by (rule mult_neg_neg)
  ultimately show ?thesis
    by simp
qed

lemma no_week_Z_now: "Z (orbit_state (number (cells no_week_row)) 0 0) = 0"
  unfolding no_week_Z by simp

text \<open>
  C1 as stated fails: for a record without week column, the call made in GPS week 2190
  and the call made one week later, with the same arguments, return different positions
  (the first has \<open>Z = 0\<close>, the second \<open>Z > 0\<close>).
\<close>

theorem orbit_depends_on_wall_clock:
  "interpolate_orbit 63776073600000000 [no_week_row] 63776073600000000 ''G'' 1 \<noteq>
   interpolate_orbit 63776678400000000 [no_week_row] 63776073600000000 ''G'' 1"
proof
  assume "interpolate_orbit 63776073600000000 [no_week_row] 63776073600000000 ''G'' 1 =
    interpolate_orbit 63776678400000000 [no_week_row] 63776073600000000 ''G'' 1"
  then have "orbit_state (number (cells no_week_row)) 0 0 =
      orbit_state (number (cells no_week_row)) (- 604800) 0"
    by (simp add: no_week_orbit week_of_now toe_of_week no_week_dt)
  then have "Z (orbit_state (number (cells no_week_row)) 0 0) =
      Z (orbit_state (number (cells no_week_row)) (- 604800) 0)"
    by simp
  with no_week_Z_now no_week_Z_later show False
    by simp
qed

theorem queries_depend_on_current_week_only_witness:
  "(fst (datetime_to_gps_time 63776073600000000) = fst (datetime_to_gps_time 63776678400000000) \<or>
    (\<forall>row. select_row [week_row] 63776073600000000 1 = Inr row \<longrightarrow>
       find_week week_columns (cells row) \<noteq> Inr None)) \<and>
   interpolate_orbit 63776073600000000 [week_row] 63776073600000000 ''G'' 1 =
     interpolate_orbit 63776678400000000 [week_row] 63776073600000000 ''G'' 1 \<and>
   compute_sv_clock_correction 63776073600000000 [week_row] 63776073600000000 ''G'' 1 =
     compute_sv_clock_correction 63776678400000000 [week_row] 63776073600000000 ''G'' 1"
proof -
  have sel: "select_row [week_row] 63776073600000000 1 = Inr week_row"
    by (simp add: select_row_def week_row_def no_week_row_def)
  have wk: "find_week week_columns (cells week_row) = Inr (Some 2190)"
    by (simp add: week_columns_def week_row_def missing_def isnan_def int_of_float_def trunc_def)
  have hyp: "\<forall>row. select_row [week_row] 63776073600000000 1 = Inr row \<longrightarrow>
       find_week week_columns (cells row) \<noteq> Inr None"
    by (simp add: sel wk)
  show ?thesis
    using hyp
      queries_depend_on_current_week_only [of 63776073600000000 63776678400000000
        "[week_row]" 63776073600000000 1 "''G''"]
    by blast
qed

subsection \<open>The GPS time round trip\<close>

lemma trunc_nonneg: "0 \<le> x \<Longrightarrow> trunc x = \<lfloor>x\<rfloor>"
  by (simp add: trunc_def)

lemma float_mod_range:
  assumes "0 \<le> x" "0 < w"
  shows "0 \<le> float_mod x w \<and> float_mod x w < w"
proof -
  define q where "q = \<lfloor>x / w\<rfloor>"
  have t: "trunc (x / w) = q"
    using assms by (simp add: trunc_nonneg q_def)
  have lo: "real_of_int q \<le> x / w" and hi: "x / w < real_of_int q + 1"
    unfolding q_def by linarith+
  from lo assms have m0: "0 \<le> x - w * real_of_int q"
    by (simp add: field_simps)
  from hi assms have m1: "x - w * real_of_int q < w"
    by (simp add: field_simps)
  from m0 m1 show ?thesis
    by (simp add: float_mod_def t Let_def)
qed

lemma week_exact:
  assumes "0 \<le> S" "S < 2 ^ 53"
  shows "\<lfloor>rd (real_of_int S / 604800)\<rfloor> = S div 604800"
proof (cases "S mod 604800 = 0")
  case True
  then have "real_of_int S / 604800 = real_of_int (S div 604800)"
    by (metis of_int_numeral real_of_int_div dvd_eq_mod_eq_0)
  moreover have "\<bar>S div 604800\<bar> < 2 ^ 53"
  proof -
    have "S = 604800 * (S div 604800) + S mod 604800"
      by simp
    moreover have "0 \<le> S div 604800"
      using assms by (simp add: pos_imp_zdiv_nonneg_iff)
    moreover have "0 \<le> S mod 604800"
      by simp
    ultimately have "0 \<le> S div 604800 \<and> S div 604800 \<le> S"
      by linarith
    then show ?thesis
      using assms by simp
  qed
  ultimately show ?thesis
    by (simp add: rd_int)
next
  case False
  define q where "q = S div 604800"
  define r where "r = S mod 604800"
  define x where "x = real_of_int S / 604800"
  have r: "1 \<le> r" "r \<le> 604799"
    using False by (simp_all add: r_def)
  have S: "S = 604800 * q + r"
    by (simp add: q_def r_def)
  have x: "x = real_of_int q + real_of_int r / 604800"
    by (simp add: x_def S field_simps)
  have xlo: "real_of_int q + 1 / 604800 \<le> x"
    using r(1) by (simp add: x field_simps)
  have xhi: "x \<le> real_of_int q + 1 - 1 / 604800"
    using r(2) by (simp add: x field_simps)
  have q0: "0 \<le> q"
    using assms by (simp add: q_def pos_imp_zdiv_nonneg_iff)
  have "2 powr (- 1022) \<le> (2 :: real) powr (- 20)"
    by (intro powr_mono) auto
  also have "\<dots> \<le> 1 / 604800"
    by (simp add: powr_minus)
  also have "\<dots> \<le> x"
    using xlo q0 by simp
  finally have "\<bar>rd x - x\<bar> \<le> x / 2 ^ 53"
    by (rule rd_error)
  moreover have "x / 2 ^ 53 < 1 / 604800"
    using assms(2) by (simp add: x_def flip: of_int_less_iff)
  ultimately have "\<bar>rd x - x\<bar> < 1 / 604800"
    by (rule le_less_trans)
  then have "real_of_int q \<le> rd x" "rd x < real_of_int q + 1"
    using xlo xhi by linarith+
  then show ?thesis
    unfolding x_def [symmetric] q_def [symmetric] by (rule floor_unique)
qed

lemma round_trip_of_seconds:
  assumes ts: "total_seconds d gps_epoch = real_of_int S"
    and S0: "0 \<le> S" and le: "gps_epoch + S * 1000000 \<le> max_datetime"
  shows "datetime_to_gps_time d = (S div 604800, real_of_int (S mod 604800))"
    and "round_trip d = Inr (gps_epoch + S * 1000000)"
proof -
  have Smax: "S \<le> 253086335999"
    using le by (simp add: max_datetime_value gps_epoch_value)
  then have S53: "S < 2 ^ 53"
    by simp
  define q where "q = S div 604800"
  define r where "r = S mod 604800"
  have r0: "0 \<le> r" and q0: "0 \<le> q"
    using S0 by (simp_all add: r_def q_def pos_imp_zdiv_nonneg_iff)
  have rd0: "0 \<le> rd (real_of_int S / 604800)"
    using S0 by (intro rd_nonneg) simp
  have week: "trunc (rd (real_of_int S / 604800)) = q"
    using week_exact [of S] S0 S53 rd0 by (simp add: trunc_nonneg q_def)
  have fl: "\<lfloor>real_of_int S / 604800\<rfloor> = q"
    using floor_divide_of_int_eq [of S 604800] by (simp add: q_def)
  have S: "S = 604800 * q + r"
    by (simp add: q_def r_def)
  then have m: "real_of_int S - 604800 * real_of_int q = real_of_int r"
    by simp
  have sow: "float_mod (real_of_int S) 604800 = real_of_int r"
    using r0 by (simp add: float_mod_def Let_def trunc_nonneg S0 fl m)
  show g: "datetime_to_gps_time d = (q, real_of_int r)"
    by (simp add: datetime_to_gps_time_def ts week sow)
  have us: "r * 1000000 + q * 604800000000 = S * 1000000"
    using S by simp
  have sec: "seconds_to_us (real_of_int r) = (r * 1000000, 0)"
    using r0 by (simp add: seconds_to_us_def trunc_nonneg)
  have days: "\<bar>S * 1000000 div 86400000000\<bar> \<le> 999999999"
  proof -
    have "S * 1000000 div 86400000000 \<le> 253086335999 * 1000000 div 86400000000"
      using Smax by (intro zdiv_mono1) simp_all
    moreover have "0 \<le> S * 1000000 div 86400000000"
      using S0 by (simp add: pos_imp_zdiv_nonneg_iff)
    ultimately show ?thesis
      by simp
  qed
  have td: "timedelta q (Fin (real_of_int r)) = Inr (S * 1000000)"
    using days by (simp add: timedelta_def sec us)
  have "round_trip d = gps_time_to_datetime q (Fin (real_of_int r))"
    by (simp add: round_trip_def g)
  also have "\<dots> = datetime_add gps_epoch (S * 1000000)"
    by (simp add: gps_time_to_datetime_def td)
  also have "\<dots> = Inr (gps_epoch + S * 1000000)"
    using S0 le by (simp add: datetime_add_def gps_epoch_value)
  finally show "round_trip d = Inr (gps_epoch + S * 1000000)" .
qed

lemma nearest_us:
  assumes near: "\<bar>dnum - real_of_int f\<bar> < 1 / 2"
  shows "(if dnum - real_of_int \<lfloor>dnum\<rfloor> = 0 then \<lfloor>dnum\<rfloor>
          else \<lfloor>dnum\<rfloor> + whole_us (dnum - real_of_int \<lfloor>dnum\<rfloor>) b) = f"
proof -
  define t where "t = \<lfloor>dnum\<rfloor>"
  define l where "l = dnum - real_of_int t"
  have l0: "0 \<le> l" and l1: "l < 1"
    unfolding l_def t_def by linarith+
  have "real_of_int f \<le> dnum + 1 / 2" "dnum + 1 / 2 < real_of_int f + 1"
    using near by linarith+
  then have fl: "\<lfloor>dnum + 1 / 2\<rfloor> = f"
    by (rule floor_unique)
  show ?thesis
  proof (cases "l = 0")
    case True
    then have "dnum = real_of_int t"
      by (simp add: l_def)
    with fl have "t = f"
      by simp
    with True show ?thesis
      by (simp add: l_def t_def)
  next
    case False
    have "l + 1 / 2 = dnum + 1 / 2 - real_of_int t"
      by (simp add: l_def)
    then have "\<lfloor>l + 1 / 2\<rfloor> = f - t"
      using fl by (simp only: floor_diff_of_int)
    then have rha: "round_half_away l = f - t"
      using l0 by (simp add: round_half_away_def)
    have "real_of_int (f - t) - l = real_of_int f - dnum"
      by (simp add: l_def)
    then have "\<bar>real_of_int (round_half_away l) - l\<bar> \<noteq> 1 / 2"
      using near unfolding rha by linarith
    then have "whole_us l b = f - t"
      by (simp add: whole_us_def rha)
    with False show ?thesis
      unfolding l_def [symmetric] t_def [symmetric] l_def [symmetric] by simp
  qed
qed

lemma round_trip_of_fraction:
  assumes N0: "0 \<le> N" and N32: "N < 2 ^ 32 * 1000000" and frac: "N mod 1000000 \<noteq> 0"
  shows "round_trip (gps_epoch + N) = Inr (gps_epoch + N)"
proof -
  define S where "S = N div 1000000"
  define f where "f = N mod 1000000"
  define q where "q = S div 604800"
  define r where "r = S mod 604800"
  define ts where "ts = total_seconds (gps_epoch + N) gps_epoch"
  define p where "p = ts - real_of_int S"
  define y where "y = ts / 604800"
  have N: "N = S * 1000000 + f"
    by (simp add: S_def f_def)
  have S: "S = 604800 * q + r"
    by (simp add: q_def r_def)
  have f1: "1 \<le> f" and f2: "f \<le> 999999"
    using frac by (simp_all add: f_def)
  have r0: "0 \<le> r" and r1: "r \<le> 604799"
    by (simp_all add: r_def)
  have S0: "0 \<le> S"
    using N0 by (simp add: S_def pos_imp_zdiv_nonneg_iff)
  have q0: "0 \<le> q"
    using S0 by (simp add: q_def pos_imp_zdiv_nonneg_iff)
  have S32: "S \<le> 4294967295"
    using N32 N f1 by simp
  define x where "x = real_of_int N / 1000000"
  have x: "x = real_of_int S + real_of_int f / 1000000"
    by (simp add: x_def N)
  have ts: "ts = rd x"
    by (simp add: ts_def total_seconds_def x_def)
  have xlo: "1 / 1000000 \<le> x"
    using S0 f1 by (simp add: x)
  have x32: "x < 4294967296"
    using N32 by (simp add: x_def flip: of_int_less_iff)
  have "2 powr (- 1022) \<le> (2 :: real) powr (- 20)"
    by (intro powr_mono) auto
  also have "\<dots> \<le> 1 / 1000000"
    by (simp add: powr_minus)
  finally have small: "2 powr (- 1022) \<le> (1 / 1000000 :: real)" .
  from small xlo have "2 powr (- 1022) \<le> x"
    by (rule order_trans)
  then have "\<bar>rd x - x\<bar> \<le> x / 2 ^ 53"
    by (rule rd_error)
  moreover have "x / 2 ^ 53 < 1 / 2097152"
    using x32 by simp
  ultimately have e1: "\<bar>ts - x\<bar> < 1 / 2097152"
    unfolding ts by (rule le_less_trans)
  have "p - real_of_int f / 1000000 = ts - x"
    by (simp add: p_def x)
  then have pf: "\<bar>p - real_of_int f / 1000000\<bar> < 1 / 2097152"
    using e1 by (simp only:)
  define c :: real where "c = 1 / 1000000 - 1 / 2097152"
  have c: "1 / 2097152 < c"
    by (simp add: c_def)
  have plo: "c < p" and phi: "p < 1 - c"
    unfolding c_def using pf f1 f2 by linarith+
  have tsp: "ts = real_of_int S + p"
    by (simp add: p_def)
  have rr: "0 \<le> real_of_int r" "real_of_int r \<le> 604799"
    using r0 r1 by simp_all
  have y: "y = real_of_int q + (real_of_int r + p) / 604800"
    by (simp add: y_def tsp S)
  have "c / 604800 < (real_of_int r + p) / 604800"
    using rr plo by (intro divide_strict_right_mono) simp_all
  then have ylo: "real_of_int q + c / 604800 < y"
    by (simp only: y add_strict_left_mono)
  have "(real_of_int r + p) / 604800 < (604800 - c) / 604800"
    using rr phi by (intro divide_strict_right_mono) simp_all
  then have yhi: "y < real_of_int q + 1 - c / 604800"
    by (simp add: y diff_divide_distrib)
  have cc: "1 / 2097152 / 604800 < c / 604800"
    using c by (intro divide_strict_right_mono) simp_all
  have "2 powr (- 1022) \<le> (2 :: real) powr (- 50)"
    by (intro powr_mono) auto
  also have "\<dots> \<le> c / 604800"
    by (simp add: powr_minus c_def)
  also have "\<dots> \<le> y"
    using ylo q0 by simp
  finally have "\<bar>rd y - y\<bar> \<le> y / 2 ^ 53"
    by (rule rd_error)
  moreover have "y / 2 ^ 53 < 1 / 2097152 / 604800"
  proof -
    have "real_of_int S \<le> 4294967295"
      using S32 by simp
    then have "ts < 4294967296"
      using tsp phi c by linarith
    then show ?thesis
      by (simp add: y_def)
  qed
  ultimately have e2: "\<bar>rd y - y\<bar> < 1 / 2097152 / 604800"
    by (rule le_less_trans)
  have "real_of_int q \<le> rd y" "rd y < real_of_int q + 1"
    using e2 ylo yhi cc by linarith+
  then have "\<lfloor>rd y\<rfloor> = q"
    by (rule floor_unique)
  moreover have "0 \<le> y"
    using ylo q0 c by simp
  then have "0 \<le> rd y"
    by (rule rd_nonneg)
  ultimately have week: "trunc (rd y) = q"
    by (simp add: trunc_nonneg)
  have "real_of_int q \<le> y" "y < real_of_int q + 1"
    using ylo yhi c by simp_all
  then have "\<lfloor>y\<rfloor> = q"
    by (rule floor_unique)
  moreover have "0 \<le> y"
    using ylo q0 c by simp
  ultimately have ty: "trunc y = q"
    by (simp add: trunc_nonneg)
  have m: "ts - 604800 * real_of_int q = real_of_int r + p"
    by (simp add: tsp S)
  have sow: "float_mod ts 604800 = real_of_int r + p"
    using rr plo c by (simp add: float_mod_def Let_def ty [unfolded y_def] m)
  have g: "datetime_to_gps_time (gps_epoch + N) = (q, real_of_int r + p)"
    by (simp add: datetime_to_gps_time_def ts_def [symmetric] week [unfolded y_def] sow)
  have "real_of_int r \<le> real_of_int r + p" "real_of_int r + p < real_of_int r + 1"
    using plo phi c by simp_all
  then have "\<lfloor>real_of_int r + p\<rfloor> = r"
    by (rule floor_unique)
  then have tr: "trunc (real_of_int r + p) = r"
    using rr plo c by (simp add: trunc_nonneg)
  define dnum where "dnum = rd (1000000 * p)"
  have "2 powr (- 1022) \<le> 1000000 * p"
    using small plo c by linarith
  then have "\<bar>dnum - 1000000 * p\<bar> \<le> 1000000 * p / 2 ^ 53"
    unfolding dnum_def by (rule rd_error)
  moreover have "1000000 * p / 2 ^ 53 < 1 / 100"
    using phi c by simp
  ultimately have e3: "\<bar>dnum - 1000000 * p\<bar> < 1 / 100"
    by (rule le_less_trans)
  have "\<bar>1000000 * p - real_of_int f\<bar> < 1000000 / 2097152"
    using pf by linarith
  with e3 have near: "\<bar>dnum - real_of_int f\<bar> < 1 / 2"
    by linarith
  have d0: "0 \<le> dnum"
    using near f1 by linarith
  have sec: "seconds_to_us (real_of_int r + p) =
      (r * 1000000 + \<lfloor>dnum\<rfloor>, dnum - real_of_int \<lfloor>dnum\<rfloor>)"
    using plo c d0 by (simp add: seconds_to_us_def tr Let_def dnum_def [symmetric] trunc_nonneg)
  have us: "r * 1000000 + t + q * 604800000000 = S * 1000000 + t" for t
    using S by simp
  have days: "\<bar>N div 86400000000\<bar> \<le> 999999999"
  proof -
    have "N div 86400000000 \<le> (2 ^ 32 * 1000000) div 86400000000"
      using N32 by (intro zdiv_mono1) simp_all
    moreover have "0 \<le> N div 86400000000"
      using N0 by (simp add: pos_imp_zdiv_nonneg_iff)
    ultimately show ?thesis
      by simp
  qed
  have "S * 1000000 + (if dnum - real_of_int \<lfloor>dnum\<rfloor> = 0 then \<lfloor>dnum\<rfloor>
          else \<lfloor>dnum\<rfloor> + whole_us (dnum - real_of_int \<lfloor>dnum\<rfloor>) (odd (S * 1000000 + \<lfloor>dnum\<rfloor>))) = N"
    unfolding nearest_us [OF near] by (simp add: N)
  then have td: "timedelta q (Fin (real_of_int r + p)) = Inr N"
    using days by (simp add: timedelta_def sec us Let_def split: if_splits)
  have "round_trip (gps_epoch + N) = gps_time_to_datetime q (Fin (real_of_int r + p))"
    by (simp add: round_trip_def g)
  also have "\<dots> = datetime_add gps_epoch N"
    by (simp add: gps_time_to_datetime_def td)
  also have "\<dots> = Inr (gps_epoch + N)"
    using N0 N32 by (simp add: datetime_add_def gps_epoch_value max_datetime_value)
  finally show ?thesis .
qed

lemma total_seconds_3000: "total_seconds 94639276800000001 gps_epoch = real_of_int 32187715200"
  unfolding total_seconds_def gps_epoch_value
  by (subst rd_at [where e = 34]) (simp_all add: round_half_even_def powr_minus)

text \<open>
  Claim C10, amended. For every datetime \<open>d\<close> at or after the GPS epoch the seconds of week
  returned by \<^verbatim>\<open>datetime_to_gps_time\<close> lie in \<open>[0, 604800)\<close>. Converting the pair back with
  \<^verbatim>\<open>gps_time_to_datetime\<close> returns \<open>d\<close> when \<open>d\<close> is less than \<open>2 ^ 32\<close> seconds after the epoch
  (before 2116-02-12 06:28:16), and when \<open>d\<close> is a datetime of whole seconds, up to the last
  datetime.
\<close>

theorem gps_round_trip:
  assumes "gps_epoch \<le> d"
  shows "0 \<le> snd (datetime_to_gps_time d) \<and> snd (datetime_to_gps_time d) < 604800 \<and>
         (d - gps_epoch < 2 ^ 32 * 1000000 \<or>
          (d - gps_epoch) mod 1000000 = 0 \<and> d \<le> max_datetime \<longrightarrow> round_trip d = Inr d)"
proof (intro conjI impI)
  have ts0: "0 \<le> total_seconds d gps_epoch"
    using assms by (simp add: total_seconds_def rd_nonneg)
  from float_mod_range [OF ts0, of 604800]
  show "0 \<le> snd (datetime_to_gps_time d)" "snd (datetime_to_gps_time d) < 604800"
    by (simp_all add: datetime_to_gps_time_def Let_def)
next
  assume range: "d - gps_epoch < 2 ^ 32 * 1000000 \<or>
    (d - gps_epoch) mod 1000000 = 0 \<and> d \<le> max_datetime"
  define N where "N = d - gps_epoch"
  have d: "gps_epoch + N = d"
    by (simp add: N_def)
  have N0: "0 \<le> N"
    using assms by (simp add: N_def)
  show "round_trip d = Inr d"
  proof (cases "N mod 1000000 = 0")
    case False
    with range have "N < 2 ^ 32 * 1000000"
      by (simp add: N_def)
    with N0 have "round_trip (gps_epoch + N) = Inr (gps_epoch + N)"
      using False by (rule round_trip_of_fraction)
    then show ?thesis
      by (simp only: d)
  next
    case True
    define S where "S = N div 1000000"
    have N: "S * 1000000 = N"
      using True div_mult_mod_eq [of N 1000000] by (simp add: S_def)
    have S0: "0 \<le> S"
      using N0 by (simp add: S_def pos_imp_zdiv_nonneg_iff)
    have le: "gps_epoch + S * 1000000 \<le> max_datetime"
      using range N0 by (auto simp: N N_def gps_epoch_value max_datetime_value)
    then have "S \<le> 253086335999"
      by (simp add: max_datetime_value gps_epoch_value)
    then have "\<bar>S\<bar> < 2 ^ 53"
      using S0 by simp
    then have "total_seconds (gps_epoch + S * 1000000) gps_epoch = real_of_int S"
      by (rule total_seconds_int)
    then have ts: "total_seconds d gps_epoch = real_of_int S"
      by (simp only: N d)
    have "round_trip d = Inr (gps_epoch + S * 1000000)"
      using ts S0 le by (rule round_trip_of_seconds(2))
    then show ?thesis
      by (simp only: N d)
  qed
qed

theorem gps_round_trip_witness:
  "gps_epoch \<le> 63776592000000001 \<and>
   63776592000000001 - gps_epoch < 2 ^ 32 * 1000000 \<and>
   round_trip 63776592000000001 = Inr 63776592000000001 \<and>
   0 \<le> snd (datetime_to_gps_time 63776592000000001) \<and>
   snd (datetime_to_gps_time 63776592000000001) < 604800"
  using gps_round_trip [of 63776592000000001]
  by (simp add: gps_epoch_value)

text \<open>
  Claim C10 as stated fails: for 3000-01-01 00:00:00.000001 the number of seconds since the
  epoch, 32187715200.000001, is rounded to the double 32187715200.0, so the pair is
  (53220, 259200.0) and the way back gives 3000-01-01 00:00:00.
\<close>

theorem gps_round_trip_loses_microsecond:
  "gps_epoch \<le> 94639276800000001 \<and> 94639276800000001 \<le> max_datetime \<and>
   datetime_to_gps_time 94639276800000001 = (53220, 259200) \<and>
   round_trip 94639276800000001 = Inr 94639276800000000 \<and>
   round_trip 94639276800000001 \<noteq> Inr 94639276800000001"
  using round_trip_of_seconds [OF total_seconds_3000]
  by (simp add: gps_epoch_value max_datetime_value)

subsection \<open>Dilution of precision\<close>











end
